theory Spec2Isabelle
  imports Complex_Main "HOL-Library.Multiset" "HOL-Library.Sublist" "HOL-Library.List_Lexorder"
    "HOL-Library.Char_ord"
begin

section \<open>Errors and Python sets\<close>

text \<open>
  The exceptions the modelled code can raise. The last three are the error kinds the
  specification names; no path of the sources constructs them, they only serve to state
  that a result differs from them.
\<close>

datatype error =
    KeyError | NameError | ValueError | IndexError | TypeError | AttributeError
  | ZeroDivisionError | OverflowError | RecursionError
  | UnresolvedDependencyError | MissingParameterError | MissingKeyError

text \<open>
  A Python \<^verbatim>\<open>set\<close> is a HOL set. Python fixes neither the order in which
  a set is iterated nor the order in which \<^verbatim>\<open>pop()\<close> empties it (both follow
  the hash table's slots, not the insertions), so every function that iterates a set
  takes that order as a parameter \<open>ord\<close>; \<open>enumerates ord\<close> says that it lists each
  element of a finite set once.
\<close>

definition enumerates :: "('a set \<Rightarrow> 'a list) \<Rightarrow> bool" where
  "enumerates ord = (\<forall>S. finite S \<longrightarrow> set (ord S) = S \<and> distinct (ord S))"

text \<open>
  The slot order of CPython for elements whose hashes are small and distinct: ascending
  hash. Listeners and modules are identified by natural numbers in the concrete
  instances below.
\<close>

definition slot_order :: "'a::linorder set \<Rightarrow> 'a list" where
  "slot_order S = sorted_list_of_set S"

text \<open>\<^verbatim>\<open>list.index\<close>: \<open>None\<close> stands for the \<^verbatim>\<open>ValueError\<close>.\<close>

fun list_index :: "'a list \<Rightarrow> 'a \<Rightarrow> nat option" where
  "list_index [] x = None"
| "list_index (y # ys) x = (if y = x then Some 0 else map_option Suc (list_index ys x))"

section \<open>Floating point\<close>

text \<open>
  A Python float is a binary64 number. Where a statement turns on the rounding (the
  probability of a rate, the ageing of the population) the operations are rounded as
  IEEE 754 prescribes, by \<open>float64\<close> below; elsewhere floats are modelled by
  \<^typ>\<open>real\<close> and the statements are about the exact values.

  \<open>round_even\<close> rounds to the nearest integer, a tie to the even one. A number
  other than 0 lies in the binade \<open>[2 ^ e, 2 ^ (e + 1))\<close> with \<open>e = binade x\<close>;
  the doubles of that binade are the multiples of \<open>2 ^ (e - 52)\<close> (53 significant
  bits), and below \<open>2 ^ - 1022\<close> (the subnormal numbers) the multiples of
  \<open>2 ^ - 1074\<close>. \<open>float64 x\<close> is the multiple nearest to \<open>x\<close>: the double that
  an operation with the exact result \<open>x\<close> returns. Results beyond the largest double (an
  infinity in the code) and \<^verbatim>\<open>NaN\<close> are outside the model.
\<close>

definition round_even :: "real \<Rightarrow> int" where
  "round_even r =
     (let f = \<lfloor>r\<rfloor>; d = r - of_int f
      in if d < 1 / 2 then f else if 1 / 2 < d then f + 1 else if even f then f else f + 1)"

definition binade :: "real \<Rightarrow> int" where
  "binade x = \<lfloor>log 2 \<bar>x\<bar>\<rfloor>"

definition quantum :: "real \<Rightarrow> real" where
  "quantum x = 2 powi (max (binade x) (- 1022) - 52)"

definition float64 :: "real \<Rightarrow> real" where
  "float64 x = (if x = 0 then 0 else of_int (round_even (x / quantum x)) * quantum x)"

text \<open>
  \<^verbatim>\<open>np.exp\<close> is a routine of the platform's mathematical library, a parameter
  \<open>fexp\<close> of the functions that call it. \<open>exp_routine\<close> states what is used of
  it: it is monotone, exact at 0, never negative, and not above the exponential by more
  than four units in the last place (or the smallest subnormal number). The correctly
  rounded exponential \<open>exp64\<close> is such a routine.
\<close>

definition exp_routine :: "(real \<Rightarrow> real) \<Rightarrow> bool" where
  "exp_routine fexp =
     (mono fexp \<and> fexp 0 = 1
      \<and> (\<forall>x. 0 \<le> fexp x \<and> fexp x \<le> exp x + exp x / 2 ^ 50 + 1 / 2 ^ 1074))"

definition exp64 :: "real \<Rightarrow> real" where
  "exp64 x = float64 (exp x)"

section \<open>Rate math (util.py)\<close>

text \<open>
  A \<^verbatim>\<open>timedelta\<close> is its total number of microseconds, the unit Python
  normalises to; \<^verbatim>\<open>.days\<close> is the (floored) day component and
  \<^verbatim>\<open>.total_seconds()\<close> the whole duration in seconds.
\<close>

type_synonym timedelta = int

definition days :: "timedelta \<Rightarrow> int" where
  "days td = td div (86400 * 1000000)"

definition total_seconds :: "timedelta \<Rightarrow> real" where
  "total_seconds td = real_of_int td / 1000000"

text \<open>\<^verbatim>\<open>return rate * (time_step.total_seconds() / (60*60*24*365.0))\<close>\<close>

definition from_yearly_rate :: "real \<Rightarrow> timedelta \<Rightarrow> real" where
  "from_yearly_rate rate time_step = rate * (total_seconds time_step / (60 * 60 * 24 * 365))"

text \<open>
  \<^verbatim>\<open>return rate / (time_step.total_seconds() / (60*60*24*365.0))\<close>, for a rate
  that is a Python float: dividing by the zero of an empty time step raises.
\<close>

definition to_yearly_rate :: "real \<Rightarrow> timedelta \<Rightarrow> error + real" where
  "to_yearly_rate rate time_step =
     (if total_seconds time_step / (60 * 60 * 24 * 365) = 0 then Inl ZeroDivisionError
      else Inr (rate / (total_seconds time_step / (60 * 60 * 24 * 365))))"

text \<open>
  \<^verbatim>\<open>return 1-np.exp(-rate)\<close>: the negation is exact, the subtraction is
  rounded.
\<close>

definition rate_to_probability :: "(real \<Rightarrow> real) \<Rightarrow> real \<Rightarrow> real" where
  "rate_to_probability fexp rate = float64 (1 - fexp (- rate))"

text \<open>
  \<^verbatim>\<open>mask_for_rate\<close>: a uniform variate is drawn for every row and compared
  with the probability of the row's rate. \<open>draw\<close> gives the variates of this call by
  row; a row the rates do not reach has no probability and is not selected.
\<close>

definition mask_for_rate :: "(real \<Rightarrow> real) \<Rightarrow> (nat \<Rightarrow> real) \<Rightarrow> nat \<Rightarrow> real list \<Rightarrow> bool list" where
  "mask_for_rate fexp draw n rate =
     map (\<lambda>i. i < length rate \<and> draw i < rate_to_probability fexp (rate ! i)) [0..<n]"

section \<open>The event handler (engine.py, class EventHandler)\<close>

text \<open>
  A label is \<^verbatim>\<open>None\<close> or a string. A listener is identified by a value of type
  \<open>'l\<close> (the callable object); what calling it does is given separately.
  \<^verbatim>\<open>_listeners\<close> is a \<^verbatim>\<open>defaultdict(set)\<close>, hence a total function.
\<close>

type_synonym label = "string option"

record 'l EventHandler =
  listeners :: "label \<Rightarrow> 'l set"
  generic_listeners :: "'l set"
  listener_priorities :: "(label \<times> 'l) \<rightharpoonup> int"

definition EventHandler_init :: "'l EventHandler" where
  "EventHandler_init =
     \<lparr>listeners = (\<lambda>_. {}), generic_listeners = {}, listener_priorities = Map.empty\<rparr>"

text \<open>Python's truth value of a label: \<^verbatim>\<open>None\<close> and the empty string are false.\<close>

definition truthy :: "label \<Rightarrow> bool" where
  "truthy label = (case label of None \<Rightarrow> False | Some s \<Rightarrow> s \<noteq> [])"

definition register_event_listener ::
  "('l, 'm) EventHandler_scheme \<Rightarrow> 'l \<Rightarrow> label \<Rightarrow> int \<Rightarrow> ('l, 'm) EventHandler_scheme" where
  "register_event_listener h listener label priority =
     (let h' = (if truthy label
                then h\<lparr>listeners := (listeners h)(label := insert listener (listeners h label))\<rparr>
                else h\<lparr>generic_listeners := insert listener (generic_listeners h)\<rparr>)
      in h'\<lparr>listener_priorities := (listener_priorities h')((label, listener) \<mapsto> priority)\<rparr>)"

definition deregister_event_listener ::
  "('l, 'm) EventHandler_scheme \<Rightarrow> 'l \<Rightarrow> label \<Rightarrow> error + ('l, 'm) EventHandler_scheme" where
  "deregister_event_listener h listener label =
     (if truthy label then
        (if listener \<notin> listeners h label then Inl KeyError
         else if listener_priorities h (label, listener) = None then Inl KeyError
         else Inr (h\<lparr>listeners := (listeners h)(label := listeners h label - {listener}),
                     listener_priorities := (listener_priorities h)((label, listener) := None)\<rparr>))
      else
        (if listener \<notin> generic_listeners h then Inl KeyError
         else if listener_priorities h (label, listener) = None then Inl KeyError
         else Inr (h\<lparr>generic_listeners := generic_listeners h - {listener},
                     listener_priorities := (listener_priorities h)((label, listener) := None)\<rparr>)))"

text \<open>
  \<^verbatim>\<open>[(self._listener_priorities[(label, listener)], listener) for listener in ...]\<close>:
  a missing priority is a \<^verbatim>\<open>KeyError\<close>.
\<close>

fun prioritised :: "((label \<times> 'l) \<rightharpoonup> int) \<Rightarrow> label \<Rightarrow> 'l list \<Rightarrow> error + (int \<times> 'l) list" where
  "prioritised pr label [] = Inr []"
| "prioritised pr label (l # ls) =
     (case pr (label, l) of
        None \<Rightarrow> Inl KeyError
      | Some p \<Rightarrow> (case prioritised pr label ls of
                     Inl e \<Rightarrow> Inl e
                   | Inr ps \<Rightarrow> Inr ((p, l) # ps)))"

text \<open>
  The first three lines of \<^verbatim>\<open>emit_event\<close>: the listeners of the label, then the
  generic ones, each with its priority, sorted by priority with Python's stable
  \<^verbatim>\<open>sorted\<close> (\<^const>\<open>sort_key\<close> is a stable insertion sort).
\<close>

definition emit_pairs ::
  "('l set \<Rightarrow> 'l list) \<Rightarrow> ('l, 'm) EventHandler_scheme \<Rightarrow> label \<Rightarrow> error + (int \<times> 'l) list" where
  "emit_pairs ord h label =
     (case prioritised (listener_priorities h) label (ord (listeners h label)) of
        Inl e \<Rightarrow> Inl e
      | Inr ps1 \<Rightarrow>
          (case prioritised (listener_priorities h) None (ord (generic_listeners h)) of
             Inl e \<Rightarrow> Inl e
           | Inr ps2 \<Rightarrow> Inr (ps1 @ ps2)))"

definition emit_order ::
  "('l set \<Rightarrow> 'l list) \<Rightarrow> ('l, 'm) EventHandler_scheme \<Rightarrow> label \<Rightarrow> error + 'l list" where
  "emit_order ord h label =
     (case emit_pairs ord h label of
        Inl e \<Rightarrow> Inl e
      | Inr ps \<Rightarrow> Inr (map snd (sort_key fst ps)))"

section \<open>Population, modules and the simulation (engine.py)\<close>

text \<open>
  A row of the population table, with the columns the base module contributes and the
  \<^verbatim>\<open>year\<close> column the simulation adds; the table is the list of its rows.
\<close>

record simulant =
  age :: int
  fractional_age :: real
  sex :: string
  alive :: bool
  year :: int

type_synonym population = "simulant list"

text \<open>
  \<^verbatim>\<open>class SimulationModule(EventHandler)\<close>: the record extends the event handler.
  \<open>cls\<close> is the module's class, the key of the registry; \<open>DEPENDENCIES\<close> lists
  the set of classes in its iteration order. The three methods default to
  \<^verbatim>\<open>0.0\<close> and to returning the rates unchanged; \<^verbatim>\<open>mortality_rates\<close>
  can raise (the base module's reads a table that may not be loaded).
  \<open>incidence_mediation_factors\<close> is the dictionary that
  \<^verbatim>\<open>BloodPressureModule.setup\<close> fills.
\<close>

record 'l SimulationModule = "'l EventHandler" +
  cls :: string
  DEPENDENCIES :: "string list"
  years_lived_with_disability :: "population \<Rightarrow> real"
  mortality_rates :: "population \<Rightarrow> real list \<Rightarrow> error + real list"
  incidence_rates :: "population \<Rightarrow> real list \<Rightarrow> string \<Rightarrow> real list"
  incidence_mediation_factors :: "string \<rightharpoonup> real"

definition SimulationModule_init :: "string \<Rightarrow> string list \<Rightarrow> 'l SimulationModule" where
  "SimulationModule_init c deps =
     \<lparr>listeners = (\<lambda>_. {}), generic_listeners = {}, listener_priorities = Map.empty,
      cls = c, DEPENDENCIES = deps,
      years_lived_with_disability = (\<lambda>population. 0),
      mortality_rates = (\<lambda>population rates. Inr rates),
      incidence_rates = (\<lambda>population rates label. rates),
      incidence_mediation_factors = Map.empty\<rparr>"

text \<open>
  A \<^verbatim>\<open>datetime\<close> is the number of microseconds since 0001-01-01T00:00:00,
  from 0 up to the end of the year 9999; its year is computed as CPython's
  \<^verbatim>\<open>_ord2ymd\<close> does, from the day number in the proleptic Gregorian calendar.
\<close>

type_synonym datetime = int

definition dt_year :: "datetime \<Rightarrow> int" where
  "dt_year t =
     (let n = t div (86400 * 1000000);
          n400 = n div 146097; n = n mod 146097;
          n100 = n div 36524; n = n mod 36524;
          n4 = n div 1461; n = n mod 1461;
          n1 = n div 365;
          y = n400 * 400 + 1 + n100 * 100 + n4 * 4 + n1
      in if n1 = 4 \<or> n100 = 4 then y - 1 else y)"

text \<open>\<^verbatim>\<open>datetime(y, 1, 1)\<close>, from \<^verbatim>\<open>_days_before_year\<close>.\<close>

definition datetime_jan1 :: "int \<Rightarrow> datetime" where
  "datetime_jan1 y =
     (let z = y - 1 in (z * 365 + z div 4 - z div 100 + z div 400) * (86400 * 1000000))"

text \<open>\<^verbatim>\<open>timedelta(days=d)\<close> for a whole or half number of days, given in half days.\<close>

definition timedelta_half_days :: "int \<Rightarrow> timedelta" where
  "timedelta_half_days h = h * (43200 * 1000000)"

text \<open>
  \<^verbatim>\<open>datetime + timedelta\<close>: a result before the year 1 or after the year 9999
  is an \<^verbatim>\<open>OverflowError\<close>.
\<close>

definition datetime_add :: "datetime \<Rightarrow> timedelta \<Rightarrow> error + datetime" where
  "datetime_add t td =
     (if 0 \<le> t + td \<and> t + td < datetime_jan1 10000 then Inr (t + td) else Inl OverflowError)"

text \<open>
  The simulation: the registry \<^verbatim>\<open>_modules\<close> (by class), the ordered modules,
  the population, the clock and the per-year accumulators
  (\<^verbatim>\<open>defaultdict(float)\<close>: total functions, 0 where nothing was stored).
\<close>

record 'l Simulation =
  modules :: "string \<rightharpoonup> 'l SimulationModule"
  ordered_modules :: "'l SimulationModule list"
  population :: population
  current_time :: datetime
  last_time_step :: timedelta
  yll_by_year :: "int \<Rightarrow> real"
  yld_by_year :: "int \<Rightarrow> real"

section \<open>Ordering the modules (util.py, sort_modules)\<close>

text \<open>
  The loop over \<^verbatim>\<open>current.DEPENDENCIES\<close> of \<^verbatim>\<open>inner_sort\<close>, with
  the running maximum \<open>i\<close>. \<^verbatim>\<open>modules_registry[dependency]\<close> raises
  \<^verbatim>\<open>KeyError\<close> for a class that is not registered. When the dependency is not
  in \<^verbatim>\<open>sorted_modules\<close>, \<^verbatim>\<open>index\<close> raises \<^verbatim>\<open>ValueError\<close> and
  the handler evaluates \<^verbatim>\<open>inner_sort(sorted_modules, modules, ...)\<close>, where
  the name \<^verbatim>\<open>modules\<close> is bound nowhere: a \<^verbatim>\<open>NameError\<close>.
\<close>

fun dependency_loop ::
  "(string \<rightharpoonup> 'l SimulationModule) \<Rightarrow> 'l SimulationModule list \<Rightarrow> string list \<Rightarrow> nat
   \<Rightarrow> error + nat" where
  "dependency_loop modules_registry sorted_modules [] i = Inr i"
| "dependency_loop modules_registry sorted_modules (dependency # rest) i =
     (case modules_registry dependency of
        None \<Rightarrow> Inl KeyError
      | Some m \<Rightarrow>
          (case list_index sorted_modules m of
             None \<Rightarrow> Inl NameError
           | Some j \<Rightarrow> dependency_loop modules_registry sorted_modules rest (max i j)))"

definition inner_sort ::
  "(string \<rightharpoonup> 'l SimulationModule) \<Rightarrow> 'l SimulationModule list \<Rightarrow> 'l SimulationModule
   \<Rightarrow> error + 'l SimulationModule list" where
  "inner_sort modules_registry sorted_modules current =
     (if DEPENDENCIES current = [] then Inr ([current] @ sorted_modules)
      else
        (case dependency_loop modules_registry sorted_modules (DEPENDENCIES current) 0 of
           Inl e \<Rightarrow> Inl e
         | Inr i \<Rightarrow>
             Inr (take (i + 1) sorted_modules @ [current] @ drop (i + 1) sorted_modules)))"

text \<open>
  The \<^verbatim>\<open>while\<close> loop; the list argument holds what is left of
  \<^verbatim>\<open>to_sort\<close>, in the order in which \<^verbatim>\<open>pop()\<close> yields it.
\<close>

fun sort_loop ::
  "(string \<rightharpoonup> 'l SimulationModule) \<Rightarrow> 'l SimulationModule list \<Rightarrow> 'l SimulationModule list
   \<Rightarrow> error + 'l SimulationModule list" where
  "sort_loop modules_registry [] sorted_modules = Inr sorted_modules"
| "sort_loop modules_registry (current # rest) sorted_modules =
     (if set (current # rest) - set sorted_modules = {} then Inr sorted_modules
      else
        (case inner_sort modules_registry sorted_modules current of
           Inl e \<Rightarrow> Inl e
         | Inr sorted_modules' \<Rightarrow> sort_loop modules_registry rest sorted_modules'))"

definition sort_modules ::
  "('l SimulationModule set \<Rightarrow> 'l SimulationModule list) \<Rightarrow> 'l SimulationModule set
   \<Rightarrow> (string \<rightharpoonup> 'l SimulationModule) \<Rightarrow> error + 'l SimulationModule list" where
  "sort_modules ord to_sort modules_registry = sort_loop modules_registry (ord to_sort) []"

text \<open>
  An order follows the dependencies when every module in it comes after each module it
  depends on, the registry naming that module.
\<close>

definition follows_dependencies ::
  "(string \<rightharpoonup> 'l SimulationModule) \<Rightarrow> 'l SimulationModule list \<Rightarrow> bool" where
  "follows_dependencies reg ys =
     (\<forall>m \<in> set ys. \<forall>d \<in> set (DEPENDENCIES m).
        \<exists>m'. reg d = Some m' \<and> m' \<noteq> m \<and> subseq [m', m] ys)"

text \<open>
  \<^verbatim>\<open>Simulation.register_module\<close>. \<^verbatim>\<open>module.register(self)\<close>
  does nothing in \<^verbatim>\<open>SimulationModule\<close>. The base module is taken out of the
  set to sort and put first. When the sort raises, the result is the exception alone (in
  Python the registry has the new module by then).
\<close>

definition BaseSimulationModule :: string where
  "BaseSimulationModule = ''BaseSimulationModule''"

definition register_module ::
  "('l SimulationModule set \<Rightarrow> 'l SimulationModule list) \<Rightarrow> 'l Simulation \<Rightarrow> 'l SimulationModule
   \<Rightarrow> error + 'l Simulation" where
  "register_module ord s a_module =
     (let registry = (modules s)(cls a_module \<mapsto> a_module) in
      case registry BaseSimulationModule of
        None \<Rightarrow> Inl KeyError
      | Some base \<Rightarrow>
          (case sort_modules ord (ran registry - {base}) registry of
             Inl e \<Rightarrow> Inl e
           | Inr sorted_modules \<Rightarrow>
               Inr (s\<lparr>modules := registry, ordered_modules := base # sorted_modules\<rparr>)))"

section \<open>Dispatching events (engine.py, emit_event)\<close>

text \<open>
  Masks are numpy arrays, which listeners may change in place, so they live in a store:
  an address is an index into the list of arrays allocated so far, and a new array takes
  the next index. The world a listener acts on is this store and the simulation.

  The dispatch functions keep a log of the calls they make: the listener called, the
  label, the address of the mask handed over and the content of that mask at that
  moment. The log of a dispatch is an observation that no listener can read or write. A
  listener can itself emit an event through the simulation; the calls of such a dispatch
  within a call are collected in the field \<open>nested\<close> of the world, which only the
  emitter handed to the listeners writes.
\<close>

type_synonym ndarray = "bool list"
type_synonym addr = nat

record 'l call =
  callee :: 'l
  event :: label
  handed :: addr
  content :: ndarray

record 'l world =
  heap :: "ndarray list"
  sim :: "'l Simulation"
  nested :: "'l call list"

definition ndarray_new :: "ndarray \<Rightarrow> 'l world \<Rightarrow> addr \<times> 'l world" where
  "ndarray_new array w = (length (heap w), w\<lparr>heap := heap w @ [array]\<rparr>)"

text \<open>\<^verbatim>\<open>mask.copy()\<close>: a new array with the content of the old one.\<close>

definition ndarray_copy :: "addr \<Rightarrow> 'l world \<Rightarrow> addr \<times> 'l world" where
  "ndarray_copy a w = ndarray_new (heap w ! a) w"

text \<open>
  What calling a listener does: \<^verbatim>\<open>listener(label, mask, simulation)\<close> gets the
  label and the address of its mask, and changes the world or raises. The table
  \<open>code\<close> gives this for every listener. Module objects are values here: a listener
  that registers listeners while an event is dispatched is outside the model.
\<close>

type_synonym 'l behaviour = "label \<Rightarrow> addr \<Rightarrow> 'l world \<Rightarrow> error + 'l world"

text \<open>\<^verbatim>\<open>for listener in listeners: listener(label, mask.copy(), simulation)\<close>\<close>

fun invoke_listeners ::
  "('l \<Rightarrow> 'l behaviour) \<Rightarrow> label \<Rightarrow> addr \<Rightarrow> 'l list \<Rightarrow> 'l call list \<times> 'l world
   \<Rightarrow> error + 'l call list \<times> 'l world" where
  "invoke_listeners code label mask_addr [] st = Inr st"
| "invoke_listeners code label mask_addr (listener # rest) st =
     (let (a, w1) = ndarray_copy mask_addr (snd st) in
      case code listener label a w1 of
        Inl e \<Rightarrow> Inl e
      | Inr w2 \<Rightarrow>
          invoke_listeners code label mask_addr rest
            (fst st @ [\<lparr>callee = listener, event = label, handed = a, content = heap w1 ! a\<rparr>],
             w2))"

text \<open>\<^verbatim>\<open>EventHandler.emit_event\<close>\<close>

definition emit_event ::
  "('l set \<Rightarrow> 'l list) \<Rightarrow> ('l \<Rightarrow> 'l behaviour) \<Rightarrow> ('l, 'm) EventHandler_scheme \<Rightarrow> label \<Rightarrow> addr
   \<Rightarrow> 'l call list \<times> 'l world \<Rightarrow> error + 'l call list \<times> 'l world" where
  "emit_event ord code h label mask_addr st =
     (case emit_order ord h label of
        Inl e \<Rightarrow> Inl e
      | Inr ls \<Rightarrow> invoke_listeners code label mask_addr ls st)"

text \<open>
  \<^verbatim>\<open>Simulation.emit_event\<close>:
  \<^verbatim>\<open>for module in self._ordered_modules: module.emit_event(label, mask, self)\<close>
\<close>

fun emit_modules ::
  "('l set \<Rightarrow> 'l list) \<Rightarrow> ('l \<Rightarrow> 'l behaviour) \<Rightarrow> label \<Rightarrow> addr \<Rightarrow> 'l SimulationModule list
   \<Rightarrow> 'l call list \<times> 'l world \<Rightarrow> error + 'l call list \<times> 'l world" where
  "emit_modules ord code label mask_addr [] st = Inr st"
| "emit_modules ord code label mask_addr (m # ms) st =
     (case emit_event ord code m label mask_addr st of
        Inl e \<Rightarrow> Inl e
      | Inr st' \<Rightarrow> emit_modules ord code label mask_addr ms st')"

definition Simulation_emit_event ::
  "('l set \<Rightarrow> 'l list) \<Rightarrow> ('l \<Rightarrow> 'l behaviour) \<Rightarrow> label \<Rightarrow> addr
   \<Rightarrow> 'l call list \<times> 'l world \<Rightarrow> error + 'l call list \<times> 'l world" where
  "Simulation_emit_event ord code label mask_addr st =
     emit_modules ord code label mask_addr (ordered_modules (sim (snd st))) st"

text \<open>
  A listener that emits events (as \<^verbatim>\<open>mortality_handler\<close> emits
  \<^verbatim>\<open>deaths\<close>) calls \<^verbatim>\<open>simulation.emit_event\<close>, which dispatches to
  listeners that may emit in turn. The body of a listener is therefore written against
  an emitter, what \<^verbatim>\<open>simulation.emit_event(label, mask)\<close> does when the body
  calls it, and the table of behaviours is obtained from the table of bodies level by
  level: \<open>depth\<close> is the number of dispatches that can be nested before Python's
  recursion limit ends the innermost call with a \<^verbatim>\<open>RecursionError\<close>. The emitter
  runs the dispatch on a log of its own and appends that log to \<open>nested\<close>.
\<close>

type_synonym 'l emitter = "label \<Rightarrow> addr \<Rightarrow> 'l world \<Rightarrow> error + 'l world"

type_synonym 'l body = "'l emitter \<Rightarrow> 'l behaviour"

primrec code_at ::
  "('l set \<Rightarrow> 'l list) \<Rightarrow> ('l \<Rightarrow> 'l body) \<Rightarrow> nat \<Rightarrow> 'l \<Rightarrow> 'l behaviour" where
  "code_at ord body 0 = (\<lambda>l. body l (\<lambda>label mask_addr w. Inl RecursionError))"
| "code_at ord body (Suc depth) =
     (\<lambda>l. body l (\<lambda>label mask_addr w.
        case Simulation_emit_event ord (code_at ord body depth) label mask_addr ([], w) of
          Inl e \<Rightarrow> Inl e
        | Inr (lg, w') \<Rightarrow> Inr (w'\<lparr>nested := nested w' @ lg\<rparr>)))"

section \<open>The rate pipeline and the step loop (engine.py, class Simulation)\<close>

text \<open>
  \<^verbatim>\<open>Simulation.incidence_rates\<close>: a frame of zeros, one per row, passed through
  every module's \<^verbatim>\<open>incidence_rates\<close> in module order, then converted from a
  yearly rate with the last time step.
\<close>

definition Simulation_incidence_rates :: "'l Simulation \<Rightarrow> population \<Rightarrow> string \<Rightarrow> real list" where
  "Simulation_incidence_rates s pop label =
     map (\<lambda>rate. from_yearly_rate rate (last_time_step s))
       (foldl (\<lambda>rates m. incidence_rates m pop rates label)
          (replicate (length pop) 0) (ordered_modules s))"

text \<open>
  \<^verbatim>\<open>Simulation.mortality_rates\<close>: the same with every module's
  \<^verbatim>\<open>mortality_rates\<close>, the first exception ending the loop.
\<close>

fun mortality_rates_loop ::
  "'l SimulationModule list \<Rightarrow> population \<Rightarrow> real list \<Rightarrow> error + real list" where
  "mortality_rates_loop [] pop rates = Inr rates"
| "mortality_rates_loop (m # ms) pop rates =
     (case mortality_rates m pop rates of
        Inl e \<Rightarrow> Inl e
      | Inr rates' \<Rightarrow> mortality_rates_loop ms pop rates')"

definition Simulation_mortality_rates :: "'l Simulation \<Rightarrow> population \<Rightarrow> error + real list" where
  "Simulation_mortality_rates s pop =
     (case mortality_rates_loop (ordered_modules s) pop (replicate (length pop) 0) of
        Inl e \<Rightarrow> Inl e
      | Inr rates \<Rightarrow> Inr (map (\<lambda>rate. from_yearly_rate rate (last_time_step s)) rates))"

text \<open>\<^verbatim>\<open>Simulation.years_lived_with_disability\<close>\<close>

definition Simulation_years_lived_with_disability :: "'l Simulation \<Rightarrow> real" where
  "Simulation_years_lived_with_disability s =
     foldl (\<lambda>ylds m. ylds + years_lived_with_disability m (filter alive (population s)))
       0 (ordered_modules s)"

text \<open>
  The body of the \<^verbatim>\<open>while\<close> loop of \<^verbatim>\<open>Simulation.run\<close>:
  \<^verbatim>\<open>
  self.population.year = self.current_time.year
  self.emit_event('time_step', np.array([True]*len(self.population)))
  self.yld_by_year[self.current_time.year] = self.years_lived_with_disability()
  self.current_time += time_step\<close>
  When a step raises, the result is the exception alone.
\<close>

definition run_iteration ::
  "('l set \<Rightarrow> 'l list) \<Rightarrow> ('l \<Rightarrow> 'l behaviour) \<Rightarrow> timedelta \<Rightarrow> 'l call list \<times> 'l world
   \<Rightarrow> error + 'l call list \<times> 'l world" where
  "run_iteration ord code time_step st =
     (let w = snd st; s = sim w;
          s1 = s\<lparr>population := map (\<lambda>r. r\<lparr>year := dt_year (current_time s)\<rparr>) (population s)\<rparr>;
          (mask_addr, w1) = ndarray_new (replicate (length (population s1)) True) (w\<lparr>sim := s1\<rparr>)
      in case Simulation_emit_event ord code (Some ''time_step'') mask_addr (fst st, w1) of
           Inl e \<Rightarrow> Inl e
         | Inr (lg, w2) \<Rightarrow>
             (let s2 = sim w2;
                  s3 = s2\<lparr>yld_by_year := (yld_by_year s2)
                            (dt_year (current_time s2) := Simulation_years_lived_with_disability s2)\<rparr>
              in case datetime_add (current_time s3) time_step of
                   Inl e \<Rightarrow> Inl e
                 | Inr t \<Rightarrow> Inr (lg, w2\<lparr>sim := s3\<lparr>current_time := t\<rparr>\<rparr>)))"

text \<open>
  The loop itself. It need not end (a time step that is not positive, a listener that
  sets the clock back), so not returning is the value \<open>None\<close>.
\<close>

partial_function (option) run_loop ::
  "('l set \<Rightarrow> 'l list) \<Rightarrow> ('l \<Rightarrow> 'l behaviour) \<Rightarrow> datetime \<Rightarrow> timedelta
   \<Rightarrow> 'l call list \<times> 'l world \<Rightarrow> (error + 'l call list \<times> 'l world) option" where
  "run_loop ord code end_time time_step st =
     (if current_time (sim (snd st)) \<le> end_time then
        (case run_iteration ord code time_step st of
           Inl e \<Rightarrow> Some (Inl e)
         | Inr st' \<Rightarrow> run_loop ord code end_time time_step st')
      else Some (Inr st))"

definition run ::
  "('l set \<Rightarrow> 'l list) \<Rightarrow> ('l \<Rightarrow> 'l behaviour) \<Rightarrow> datetime \<Rightarrow> datetime \<Rightarrow> timedelta
   \<Rightarrow> 'l call list \<times> 'l world \<Rightarrow> (error + 'l call list \<times> 'l world) option" where
  "run ord code start_time end_time time_step st =
     (let w = snd st;
          w0 = w\<lparr>sim := (sim w)\<lparr>current_time := start_time, last_time_step := time_step\<rparr>\<rparr>
      in run_loop ord code end_time time_step (fst st, w0))"

section \<open>The base module (engine.py, class BaseSimulationModule)\<close>

text \<open>
  \<^verbatim>\<open>astype(int)\<close> on a float64 column converts to int64: the fractional part is
  dropped, and a value that does not fit into 64 bits comes out as the smallest int64
  (what the conversion instruction of x86-64 returns).
\<close>

definition astype_int :: "real \<Rightarrow> int" where
  "astype_int x =
     (let t = (if 0 \<le> x then \<lfloor>x\<rfloor> else \<lceil>x\<rceil>)
      in if - (2 ^ 63) \<le> t \<and> t < 2 ^ 63 then t else - (2 ^ 63))"

text \<open>
  \<^verbatim>\<open>
  simulation.population.loc[mask, 'fractional_age'] += simulation.last_time_step.days/365.0
  simulation.population.age = simulation.population.fractional_age.astype(int)\<close>
  The quotient and the sums are float64 operations. A boolean mask of another length
  than the table is an indexing error.
\<close>

definition advance_age :: "'l behaviour" where
  "advance_age label mask_addr w =
     (let s = sim w; m = heap w ! mask_addr in
      if length m \<noteq> length (population s) then Inl IndexError
      else
        (let step = float64 (real_of_int (days (last_time_step s)) / 365);
             aged = map2 (\<lambda>r b. if b then r\<lparr>fractional_age := float64 (fractional_age r + step)\<rparr>
                                  else r) (population s) m;
             pop = map (\<lambda>r. r\<lparr>age := astype_int (fractional_age r)\<rparr>) aged
         in Inr (w\<lparr>sim := s\<lparr>population := pop\<rparr>\<rparr>)))"

text \<open>
  The decorator \<^verbatim>\<open>only_living\<close>:
  \<^verbatim>\<open>fun(label, mask & (simulation.population.alive == True), simulation)\<close>.
  The conjunction is a new array; operands of different lengths are a
  \<^verbatim>\<open>ValueError\<close>.
\<close>

definition only_living :: "'l body \<Rightarrow> 'l body" where
  "only_living handler emit label mask_addr w =
     (let m = heap w ! mask_addr; living = map alive (population (sim w)) in
      if length m \<noteq> length living then Inl ValueError
      else (let (a, w1) = ndarray_new (map2 (\<and>) m living) w in handler emit label a w1))"

text \<open>
  \<^verbatim>\<open>
  mortality_rate = simulation.mortality_rates(simulation.population)
  mask &= mask_for_rate(simulation.population, mortality_rate.mortality_rate)
  simulation.yll_by_year[simulation.current_time.year] +=
      simulation.population.merge(self.life_table, on=['age'])[mask].ex.sum()
  simulation.population.loc[mask, 'alive'] = False
  simulation.emit_event('deaths', mask)\<close>
  The mask is changed in place. \<open>life_table\<close> gives the \<^verbatim>\<open>ex\<close> of an age;
  when an age of the population is not in it, the merged table has other rows than the
  mask, an indexing error. The parameters are the exponential routine, the variates drawn
  in this call and the life table that \<^verbatim>\<open>load_data\<close> reads.
\<close>

definition mortality_handler ::
  "(real \<Rightarrow> real) \<Rightarrow> (nat \<Rightarrow> real) \<Rightarrow> (int \<rightharpoonup> real) \<Rightarrow> 'l body" where
  "mortality_handler fexp draw life_table emit label mask_addr w =
     (let s = sim w; pop = population s; m = heap w ! mask_addr in
      case Simulation_mortality_rates s pop of
        Inl e \<Rightarrow> Inl e
      | Inr mortality_rate \<Rightarrow>
          if length m \<noteq> length pop then Inl ValueError
          else
            (let selected = map2 (\<and>) m (mask_for_rate fexp draw (length pop) mortality_rate);
                 w1 = w\<lparr>heap := (heap w)[mask_addr := selected]\<rparr>
             in if None \<in> set (map (\<lambda>r. life_table (age r)) pop) then Inl IndexError
                else
                  (let y = dt_year (current_time s);
                       lost = sum_list (map2 (\<lambda>r b. if b then the (life_table (age r)) else 0)
                                          pop selected);
                       s1 = s\<lparr>population := map2 (\<lambda>r b. if b then r\<lparr>alive := False\<rparr> else r)
                                                 pop selected,
                              yll_by_year := (yll_by_year s)(y := yll_by_year s y + lost)\<rparr>
                   in emit (Some ''deaths'') mask_addr (w1\<lparr>sim := s1\<rparr>))))"

text \<open>
  The base module as its constructor leaves it: \<^verbatim>\<open>advance_age\<close> (listener 0)
  at priority 0 and \<^verbatim>\<open>mortality_handler\<close> (listener 1) at priority 1, both on
  \<^verbatim>\<open>time_step\<close>. The simulation as \<^verbatim>\<open>Simulation.__init__\<close> leaves it
  holds this module alone. The module's own \<^verbatim>\<open>mortality_rates\<close> reads the
  attribute \<^verbatim>\<open>all_cause_mortality_rates\<close>, which only
  \<^verbatim>\<open>load_data\<close> sets: until then it raises \<^verbatim>\<open>AttributeError\<close>.
\<close>

definition BaseSimulationModule_init :: "nat SimulationModule" where
  "BaseSimulationModule_init =
     register_event_listener
       (register_event_listener
          ((SimulationModule_init BaseSimulationModule [])
             \<lparr>mortality_rates := (\<lambda>population rates. Inl AttributeError)\<rparr>)
          0 (Some ''time_step'') 0)
       1 (Some ''time_step'') 1"

definition Simulation_init :: "nat Simulation" where
  "Simulation_init =
     \<lparr>modules = [BaseSimulationModule \<mapsto> BaseSimulationModule_init],
      ordered_modules = [BaseSimulationModule_init],
      population = [], current_time = 0, last_time_step = 0,
      yll_by_year = (\<lambda>_. 0), yld_by_year = (\<lambda>_. 0)\<rparr>"

text \<open>
  The base module after \<^verbatim>\<open>load_data\<close>:
  \<^verbatim>\<open>rates.mortality_rate += population.merge(self.all_cause_mortality_rates,
  on=['age', 'sex', 'year']).mortality_rate\<close>, for a table that has one rate for every
  age, sex and year.
\<close>

definition BaseSimulationModule_loaded :: "(int \<Rightarrow> string \<Rightarrow> int \<Rightarrow> real) \<Rightarrow> nat SimulationModule" where
  "BaseSimulationModule_loaded all_cause_mortality_rates =
     BaseSimulationModule_init
       \<lparr>mortality_rates := (\<lambda>pop rates. Inr
           (map2 (\<lambda>rate r. rate + all_cause_mortality_rates (age r) (sex r) (year r))
              rates pop))\<rparr>"

text \<open>
  The bodies of the base module's listeners; every other listener of the concrete
  instances below does nothing.
\<close>

definition base_body ::
  "(real \<Rightarrow> real) \<Rightarrow> (nat \<Rightarrow> real) \<Rightarrow> (int \<rightharpoonup> real) \<Rightarrow> nat \<Rightarrow> nat body" where
  "base_body fexp draw life_table l =
     (if l = 0 then (\<lambda>emit. advance_age)
      else if l = 1 then only_living (mortality_handler fexp draw life_table)
      else (\<lambda>emit label mask_addr w. Inr w))"

section \<open>Concrete modules\<close>

text \<open>
  Modules with no dependency (A), with a dependency on A (B), on the base module (D) and
  on a class that is registered nowhere (U).
\<close>

definition module_A :: "nat SimulationModule" where
  "module_A = SimulationModule_init ''A'' []"

definition module_B :: "nat SimulationModule" where
  "module_B = SimulationModule_init ''B'' [''A'']"

definition module_D :: "nat SimulationModule" where
  "module_D = SimulationModule_init ''D'' [BaseSimulationModule]"

definition module_U :: "nat SimulationModule" where
  "module_U = SimulationModule_init ''U'' [''Missing'']"

section \<open>Registrations and listeners used in the statements\<close>

text \<open>
  The handler that a sequence of calls
  \<^verbatim>\<open>register_event_listener(listener, label, priority)\<close> leaves behind, starting
  from a new one.
\<close>

definition registered :: "('l \<times> label \<times> int) list \<Rightarrow> 'l EventHandler" where
  "registered regs =
     foldl (\<lambda>h (listener, label, priority). register_event_listener h listener label priority)
       EventHandler_init regs"

text \<open>The priority most recently registered for a listener under a label.\<close>

definition registered_priority :: "('l \<times> label \<times> int) list \<Rightarrow> label \<Rightarrow> 'l \<Rightarrow> int option" where
  "registered_priority regs label listener =
     map_of (rev (map (\<lambda>(l, lab, p). ((lab, l), p)) regs)) (label, listener)"

text \<open>
  What \<^verbatim>\<open>emit_event\<close> is expected to collect before it sorts: the listeners
  registered under the label, then the generic ones (registered under
  \<^verbatim>\<open>None\<close>), each set in its iteration order, each listener with its priority.
\<close>

definition expected_pairs ::
  "('l set \<Rightarrow> 'l list) \<Rightarrow> ('l \<times> label \<times> int) list \<Rightarrow> label \<Rightarrow> (int \<times> 'l) list" where
  "expected_pairs ord regs label =
     map (\<lambda>l. (the (registered_priority regs label l), l))
       (ord {l. truthy label \<and> (\<exists>p. (l, label, p) \<in> set regs)})
     @ map (\<lambda>l. (the (registered_priority regs None l), l))
       (ord {l. \<exists>p. (l, None, p) \<in> set regs})"

text \<open>Three listeners on \<^verbatim>\<open>time_step\<close> at priorities 5, 10 and 1.\<close>

definition regs3 :: "(nat \<times> label \<times> int) list" where
  "regs3 = [(0, Some ''time_step'', 5), (1, Some ''time_step'', 10), (2, Some ''time_step'', 1)]"

text \<open>
  A generic listener (7) registered first, then a listener (3) on
  \<^verbatim>\<open>time_step\<close>, both at the default priority 10.
\<close>

definition regs_generic_first :: "(nat \<times> label \<times> int) list" where
  "regs_generic_first = [(7, None, 10), (3, Some ''time_step'', 10)]"

text \<open>
  A listener (0) registered as a generic listener, then twice on
  \<^verbatim>\<open>time_step\<close>, at the priorities 5 and 7.
\<close>

definition generic_and_labelled :: "nat EventHandler" where
  "generic_and_labelled =
     register_event_listener
       (register_event_listener
          (register_event_listener EventHandler_init 0 None 10)
          0 (Some ''time_step'') 5)
       0 (Some ''time_step'') 7"

text \<open>
  The listeners that keep to their own mask: a call changes no array that existed before
  it other than the one it was handed (it may allocate new ones).
\<close>

definition respects_masks :: "('l \<Rightarrow> 'l behaviour) \<Rightarrow> bool" where
  "respects_masks code =
     (\<forall>l label a w w'. code l label a w = Inr w' \<longrightarrow>
        length (heap w) \<le> length (heap w')
        \<and> (\<forall>b < length (heap w). b \<noteq> a \<longrightarrow> heap w' ! b = heap w ! b))"

text \<open>
  A table of listeners: listener 0 clears the mask it was handed, in place
  (\<^verbatim>\<open>mask &= False\<close>); every other listener does nothing.
\<close>

definition clearing_code :: "nat \<Rightarrow> nat behaviour" where
  "clearing_code l label a w =
     (if l = 0 then Inr (w\<lparr>heap := (heap w)[a := map (\<lambda>b. False) (heap w ! a)]\<rparr>)
      else Inr w)"

definition two_listeners :: "nat EventHandler" where
  "two_listeners = registered [(0, Some ''time_step'', 1), (1, Some ''time_step'', 2)]"

definition world0 :: "nat world" where
  "world0 = \<lparr>heap = [[True, True]], sim = Simulation_init, nested = []\<rparr>"

section \<open>A concrete simulation\<close>

text \<open>
  A module C with a listener (2) on \<^verbatim>\<open>time_step\<close>, a listener (3) on
  \<^verbatim>\<open>time_step__continuous\<close>, as \<^verbatim>\<open>BloodPressureModule.setup\<close>
  registers one, and a listener (4) on \<^verbatim>\<open>deaths\<close>, all at the default
  priority; its \<^verbatim>\<open>years_lived_with_disability\<close> counts the rows it is given.
\<close>

definition module_C :: "nat SimulationModule" where
  "module_C =
     register_event_listener
       (register_event_listener
          (register_event_listener
             ((SimulationModule_init ''C'' [])
                \<lparr>years_lived_with_disability := (\<lambda>pop. real (length pop))\<rparr>)
             2 (Some ''time_step'') 10)
          3 (Some ''time_step__continuous'') 10)
       4 (Some ''deaths'') 10"

text \<open>
  The data of the concrete run: a yearly mortality rate of 14600 from the age of 90 on
  and of 0 below it (with a time step of one day the rate of the step is 40 and the
  probability is 1), a life table with \<open>ex = 100 - age\<close>, and the variate 1/2 drawn
  for every row.
\<close>

definition mortality_2000 :: "int \<Rightarrow> string \<Rightarrow> int \<Rightarrow> real" where
  "mortality_2000 a s y = (if 90 \<le> a then 14600 else 0)"

definition life_table_2000 :: "int \<rightharpoonup> real" where
  "life_table_2000 a = Some (100 - real_of_int a)"

definition body_2000 :: "nat \<Rightarrow> nat body" where
  "body_2000 = base_body exp64 (\<lambda>i. 1 / 2) life_table_2000"

text \<open>
  The simulation with the loaded base module and C, two living simulants aged 40 and 95,
  the clock at 2000-01-01 and a time step of one day.
\<close>

definition simulation_2000 :: "nat Simulation" where
  "simulation_2000 =
     \<lparr>modules = [BaseSimulationModule \<mapsto> BaseSimulationModule_loaded mortality_2000,
                 ''C'' \<mapsto> module_C],
      ordered_modules = [BaseSimulationModule_loaded mortality_2000, module_C],
      population = [\<lparr>age = 40, fractional_age = 40, sex = ''Male'', alive = True, year = 0\<rparr>,
                    \<lparr>age = 95, fractional_age = 95, sex = ''Female'', alive = True, year = 0\<rparr>],
      current_time = datetime_jan1 2000, last_time_step = timedelta_half_days 2,
      yll_by_year = (\<lambda>_. 0), yld_by_year = (\<lambda>_. 0)\<rparr>"

definition world_2000 :: "nat world" where
  "world_2000 = \<lparr>heap = [], sim = simulation_2000, nested = []\<rparr>"

text \<open>
  A module U whose \<^verbatim>\<open>incidence_rates\<close> adds the annual rate 0.2 for
  \<^verbatim>\<open>heart_attack\<close>, and a module V that, like
  \<^verbatim>\<open>BloodPressureModule.setup\<close>, declares the mediation factor 0.3 for it and
  inherits the default \<^verbatim>\<open>incidence_rates\<close>.
\<close>

definition module_additive :: "nat SimulationModule" where
  "module_additive =
     (SimulationModule_init ''U'' [])
       \<lparr>incidence_rates := (\<lambda>pop rates label.
           if label = ''heart_attack'' then map (\<lambda>r. r + 0.2) rates else rates)\<rparr>"

definition module_mediating :: "nat SimulationModule" where
  "module_mediating =
     (SimulationModule_init ''V'' [])
       \<lparr>incidence_mediation_factors := [''heart_attack'' \<mapsto> 0.3]\<rparr>"

definition simulation_mediation :: "nat Simulation" where
  "simulation_mediation =
     \<lparr>modules = [BaseSimulationModule \<mapsto> BaseSimulationModule_init,
                 ''U'' \<mapsto> module_additive, ''V'' \<mapsto> module_mediating],
      ordered_modules = [BaseSimulationModule_init, module_additive, module_mediating],
      population = [\<lparr>age = 40, fractional_age = 40, sex = ''Male'', alive = True, year = 2000\<rparr>],
      current_time = datetime_jan1 2000, last_time_step = timedelta_half_days 730,
      yll_by_year = (\<lambda>_. 0), yld_by_year = (\<lambda>_. 0)\<rparr>"

text \<open>
  A world for \<^verbatim>\<open>advance_age\<close>: a living simulant of fractional age 40.5 and a
  dead one, a time step of 30.5 days, and an all-true mask at address 0.
\<close>

definition world_aging :: "nat world" where
  "world_aging =
     \<lparr>heap = [[True, True]],
      sim = Simulation_init
        \<lparr>population :=
           [\<lparr>age = 40, fractional_age = 40.5, sex = ''Female'', alive = True, year = 2000\<rparr>,
            \<lparr>age = 81, fractional_age = 81, sex = ''Male'', alive = False, year = 2000\<rparr>],
         last_time_step := timedelta_half_days 61\<rparr>,
      nested = []\<rparr>"

text \<open>
  Another one, with a time step of one day: a living simulant whose fractional age is the
  double 39.9972602739726 (2814556976026621 / 2 ^ 46), one day short of 40, and one
  whose fractional age is 10 ^ 19.
\<close>

definition world_rounding :: "nat world" where
  "world_rounding =
     \<lparr>heap = [[True, True]],
      sim = Simulation_init
        \<lparr>population :=
           [\<lparr>age = 39, fractional_age = 2814556976026621 / 2 ^ 46, sex = ''Female'',
             alive = True, year = 2000\<rparr>,
            \<lparr>age = 0, fractional_age = 10 ^ 19, sex = ''Male'', alive = True, year = 2000\<rparr>],
         last_time_step := timedelta_half_days 2\<rparr>,
      nested = []\<rparr>"

text \<open>
  The call log and the world that one iteration on \<open>world_2000\<close> leaves: the simulant
  of 95 has died, and the listener of \<^verbatim>\<open>deaths\<close> was called in the dispatch
  that \<^verbatim>\<open>mortality_handler\<close> started.
\<close>

definition log_2000 :: "nat call list" where
  "log_2000 =
     [\<lparr>callee = 0, event = Some ''time_step'', handed = 1, content = [True, True]\<rparr>,
      \<lparr>callee = 1, event = Some ''time_step'', handed = 2, content = [True, True]\<rparr>,
      \<lparr>callee = 2, event = Some ''time_step'', handed = 5, content = [True, True]\<rparr>]"

definition world_2000_after :: "nat world" where
  "world_2000_after =
     \<lparr>heap = [[True, True], [True, True], [True, True], [False, True], [False, True],
              [True, True]],
      sim = simulation_2000
        \<lparr>population :=
           [\<lparr>age = 40, fractional_age = 2814942558186499 / 2 ^ 46, sex = ''Male'',
             alive = True, year = 2000\<rparr>,
            \<lparr>age = 95, fractional_age = 6685223487958019 / 2 ^ 46, sex = ''Female'',
             alive = False, year = 2000\<rparr>],
         current_time := datetime_jan1 2000 + timedelta_half_days 2,
         yll_by_year := (\<lambda>_. 0)(2000 := 5),
         yld_by_year := (\<lambda>_. 0)(2000 := 1)\<rparr>,
      nested = [\<lparr>callee = 4, event = Some ''deaths'', handed = 4, content = [False, True]\<rparr>]\<rparr>"

section \<open>Interpolation (interpolation.py)\<close>

text \<open>
  A \<^verbatim>\<open>DataFrame\<close> is its column names and its rows, each row giving a value
  to every column; the index of a row is its position. Cells are of one ordered type
  \<open>'v\<close> (pandas sorts the keys of a \<^verbatim>\<open>groupby\<close>). A cell a row does not
  define is a missing value (\<^verbatim>\<open>NaN\<close>).
\<close>

record 'v DataFrame =
  columns :: "string list"
  rows :: "(string \<rightharpoonup> 'v) list"

text \<open>\<^verbatim>\<open>DataFrame.empty\<close>: an axis of length 0.\<close>

definition DataFrame_empty :: "'v DataFrame \<Rightarrow> bool" where
  "DataFrame_empty df = (rows df = [] \<or> columns df = [])"

text \<open>\<^verbatim>\<open>data.drop(p, axis='columns')\<close>\<close>

definition drop_column :: "string \<Rightarrow> 'v DataFrame \<Rightarrow> 'v DataFrame" where
  "drop_column p df =
     \<lparr>columns = filter (\<lambda>c. c \<noteq> p) (columns df), rows = map (\<lambda>r. r(p := None)) (rows df)\<rparr>"

text \<open>
  The tuple of a row's values in the key columns; a row with a missing value in one of
  them has no key.
\<close>

definition row_key :: "string list \<Rightarrow> (string \<rightharpoonup> 'v) \<Rightarrow> 'v list option" where
  "row_key ks r = those (map r ks)"

text \<open>
  \<^verbatim>\<open>df.groupby(list(key_columns))\<close>: the keys that occur, in sorted order, each
  with the positions of its rows. As pandas does by default, it leaves out the rows that
  have a missing value in a key column. Without key columns the code takes the whole
  table under the key \<^verbatim>\<open>None\<close>, which the empty tuple stands for.
\<close>

definition groupby :: "string list \<Rightarrow> 'v::linorder DataFrame \<Rightarrow> ('v list \<times> nat list) list" where
  "groupby ks df =
     map (\<lambda>k. (k, filter (\<lambda>i. row_key ks (rows df ! i) = Some k) [0..<length (rows df)]))
       (sort (remdups (List.map_filter (row_key ks) (rows df))))"

definition sub_tables :: "string list \<Rightarrow> 'v::linorder DataFrame \<Rightarrow> ('v list \<times> nat list) list" where
  "sub_tables ks df = (if ks \<noteq> [] then groupby ks df else [([], [0..<length (rows df)])])"

text \<open>
  The object \<^verbatim>\<open>Interpolation.__init__\<close> builds: the key columns, the parameter
  columns that were kept, the validated data, and for every key its functions by value
  column (a dictionary, in insertion order). A fitted function takes the parameter cells
  of a row and gives the cell of the value column; either may be a missing value.
\<close>

record 'v Interpolation =
  key_columns :: "string list"
  parameter_columns :: "string list"
  data :: "'v DataFrame"
  interpolations :: "'v list \<rightharpoonup> (string \<times> ('v option list \<Rightarrow> 'v option)) list"

text \<open>
  The loop of \<^verbatim>\<open>validate_parameters\<close> over the continuous parameters:
  \<^verbatim>\<open>data[p]\<close> raises \<^verbatim>\<open>KeyError\<close> for a column that is not there; a
  parameter with no more than \<open>order\<close> distinct values (\<^verbatim>\<open>unique()\<close> counts
  the missing value as one) is dropped from the data.
\<close>

fun retain_parameters ::
  "'v DataFrame \<Rightarrow> string list \<Rightarrow> int \<Rightarrow> error + string list \<times> 'v DataFrame" where
  "retain_parameters df [] order = Inr ([], df)"
| "retain_parameters df (p # ps) order =
     (if p \<notin> set (columns df) then Inl KeyError
      else if int (length (remdups (map (\<lambda>r. r p) (rows df)))) > order then
        (case retain_parameters df ps order of
           Inl e \<Rightarrow> Inl e
         | Inr (out, df') \<Rightarrow> Inr (p # out, df'))
      else retain_parameters (drop_column p df) ps order)"

definition validate_parameters ::
  "'v DataFrame \<Rightarrow> string list \<Rightarrow> string list \<Rightarrow> int
   \<Rightarrow> error + string list \<times> 'v DataFrame \<times> string list" where
  "validate_parameters df categorical_parameters continuous_parameters order =
     (if order \<notin> {0, 1} then Inl ValueError
      else if length continuous_parameters \<notin> {1, 2} then Inl ValueError
      else
        (case retain_parameters df continuous_parameters order of
           Inl e \<Rightarrow> Inl e
         | Inr (out, df') \<Rightarrow>
             (let value_columns =
                    sort (filter (\<lambda>c. c \<notin> set categorical_parameters \<union> set continuous_parameters)
                            (columns df'))
              in if value_columns = [] then Inl ValueError
                 else Inr (out, df', value_columns))))"

text \<open>
  \<^verbatim>\<open>Interpolation.__init__\<close>. The scipy constructors are the parameter
  \<open>fit\<close>: from the order and the samples of a sub-table (the parameter cells of a row
  and its value cell) to the function fitted. Grouping by a column that is not there is a
  \<^verbatim>\<open>KeyError\<close>; with no parameter left, \<^verbatim>\<open>self.parameter_columns[0]\<close>
  is an \<^verbatim>\<open>IndexError\<close> at the first sub-table that is not empty.
\<close>

definition Interpolation_init ::
  "(int \<Rightarrow> ('v option list \<times> 'v option) list \<Rightarrow> 'v option list \<Rightarrow> 'v option)
   \<Rightarrow> 'v::linorder DataFrame \<Rightarrow> string list \<Rightarrow> string list \<Rightarrow> int \<Rightarrow> error + 'v Interpolation" where
  "Interpolation_init fit df categorical_parameters continuous_parameters order =
     (case validate_parameters df categorical_parameters continuous_parameters order of
        Inl e \<Rightarrow> Inl e
      | Inr (params, df', value_columns) \<Rightarrow>
          if categorical_parameters \<noteq> [] \<and> \<not> set categorical_parameters \<subseteq> set (columns df')
          then Inl KeyError
          else
            (let tables = filter (\<lambda>(key, idx). \<not> (idx = [] \<or> columns df' = []))
                            (sub_tables categorical_parameters df')
             in if tables \<noteq> [] \<and> params = [] then Inl IndexError
                else Inr
                  \<lparr>key_columns = categorical_parameters,
                   parameter_columns = params,
                   data = df',
                   interpolations = map_of
                     (map (\<lambda>(key, idx).
                        (key, map (\<lambda>value_column.
                           (value_column,
                            fit order (map (\<lambda>i. (map (rows df' ! i) params,
                                                  (rows df' ! i) value_column)) idx)))
                          value_columns))
                        tables)\<rparr>))"

text \<open>
  \<^verbatim>\<open>validate_call_data\<close>; the argument is a \<^verbatim>\<open>DataFrame\<close> by its type,
  so the \<^verbatim>\<open>TypeError\<close> of the first check cannot arise.
\<close>

definition validate_call_data :: "'v DataFrame \<Rightarrow> string list \<Rightarrow> string list \<Rightarrow> error option" where
  "validate_call_data df key_cols parameter_cols =
     (if \<not> set parameter_cols \<subseteq> set (columns df) then Some ValueError
      else if key_cols \<noteq> [] \<and> \<not> set key_cols \<subseteq> set (columns df) then Some ValueError
      else None)"

text \<open>
  \<^verbatim>\<open>result.loc[sub_table.index, value_column] = func(*parameters)\<close>: the function
  is applied to the parameter cells of each row of the sub-table.
\<close>

definition assign_values ::
  "string list \<Rightarrow> 'v DataFrame \<Rightarrow> nat list \<Rightarrow> 'v DataFrame
   \<Rightarrow> string \<times> ('v option list \<Rightarrow> 'v option) \<Rightarrow> 'v DataFrame" where
  "assign_values params interpolants idx result vf =
     \<lparr>columns = (if fst vf \<in> set (columns result) then columns result
                 else columns result @ [fst vf]),
      rows = map (\<lambda>i. if i \<in> set idx
                       then (rows result ! i)
                              (fst vf := snd vf (map (rows interpolants ! i) params))
                       else rows result ! i)
               [0..<length (rows result)]\<rparr>"

text \<open>
  The loop of \<^verbatim>\<open>__call__\<close> over the sub-tables;
  \<^verbatim>\<open>self.interpolations[key]\<close> raises \<^verbatim>\<open>KeyError\<close> for a key without
  functions.
\<close>

fun call_loop ::
  "'v Interpolation \<Rightarrow> 'v DataFrame \<Rightarrow> ('v list \<times> nat list) list \<Rightarrow> 'v DataFrame
   \<Rightarrow> error + 'v DataFrame" where
  "call_loop I interpolants [] result = Inr result"
| "call_loop I interpolants ((key, idx) # rest) result =
     (if idx = [] \<or> columns interpolants = [] then call_loop I interpolants rest result
      else
        (case interpolations I key of
           None \<Rightarrow> Inl KeyError
         | Some funcs \<Rightarrow>
             call_loop I interpolants rest
               (foldl (assign_values (parameter_columns I) interpolants idx) result funcs)))"

text \<open>\<^verbatim>\<open>Interpolation.__call__\<close>\<close>

definition Interpolation_call ::
  "'v::linorder Interpolation \<Rightarrow> 'v DataFrame \<Rightarrow> error + 'v DataFrame" where
  "Interpolation_call I interpolants =
     (case validate_call_data interpolants (key_columns I) (parameter_columns I) of
        Some e \<Rightarrow> Inl e
      | None \<Rightarrow>
          call_loop I interpolants (sub_tables (key_columns I) interpolants)
            \<lparr>columns = [], rows = replicate (length (rows interpolants)) Map.empty\<rparr>)"

text \<open>
  A reference table with the keys 1 and 2 in \<^verbatim>\<open>sex\<close>, the ages 20 and 30, and
  \<^verbatim>\<open>value\<close> = age for key 1, twice the age for key 2; a stand-in for the fitted
  function (the value of the first sample); and queries with a known key, with a key
  that is not in the table, without the \<^verbatim>\<open>age\<close> column, with a row whose
  \<^verbatim>\<open>sex\<close> is missing beside a row of key 2, and with such a row alone.
\<close>

definition reference_table :: "real DataFrame" where
  "reference_table =
     \<lparr>columns = [''sex'', ''age'', ''value''],
      rows = [[''sex'' \<mapsto> 1, ''age'' \<mapsto> 20, ''value'' \<mapsto> 20],
              [''sex'' \<mapsto> 1, ''age'' \<mapsto> 30, ''value'' \<mapsto> 30],
              [''sex'' \<mapsto> 2, ''age'' \<mapsto> 20, ''value'' \<mapsto> 40],
              [''sex'' \<mapsto> 2, ''age'' \<mapsto> 30, ''value'' \<mapsto> 60]]\<rparr>"

definition first_sample ::
  "int \<Rightarrow> (real option list \<times> real option) list \<Rightarrow> real option list \<Rightarrow> real option" where
  "first_sample order samples x = (case samples of [] \<Rightarrow> None | s # _ \<Rightarrow> snd s)"

definition query_known :: "real DataFrame" where
  "query_known = \<lparr>columns = [''sex'', ''age''], rows = [[''sex'' \<mapsto> 2, ''age'' \<mapsto> 25]]\<rparr>"

definition query_unknown_key :: "real DataFrame" where
  "query_unknown_key =
     \<lparr>columns = [''sex'', ''age''],
      rows = [[''sex'' \<mapsto> 1, ''age'' \<mapsto> 25], [''sex'' \<mapsto> 3, ''age'' \<mapsto> 25]]\<rparr>"

definition query_no_age :: "real DataFrame" where
  "query_no_age = \<lparr>columns = [''sex''], rows = [[''sex'' \<mapsto> 1]]\<rparr>"

definition query_missing_sex :: "real DataFrame" where
  "query_missing_sex =
     \<lparr>columns = [''sex'', ''age''],
      rows = [[''age'' \<mapsto> 25], [''sex'' \<mapsto> 2, ''age'' \<mapsto> 25]]\<rparr>"

definition query_only_missing_sex :: "real DataFrame" where
  "query_only_missing_sex = \<lparr>columns = [''sex'', ''age''], rows = [[''age'' \<mapsto> 25]]\<rparr>"

text \<open>
  The interpolation that \<^verbatim>\<open>Interpolation(reference_table, ['sex'], ['age'], 1)\<close>
  builds with \<open>first_sample\<close> for the fitted functions.
\<close>

definition reference_interpolation :: "real Interpolation" where
  "reference_interpolation =
     \<lparr>key_columns = [''sex''], parameter_columns = [''age''], data = reference_table,
      interpolations =
        [[1] \<mapsto> [(''value'', first_sample 1 [([Some 20], Some 20), ([Some 30], Some 30)])],
         [2] \<mapsto> [(''value'', first_sample 1 [([Some 20], Some 40), ([Some 30], Some 60)])]]\<rparr>"

section \<open>Properties of the floating-point operations\<close>

lemma round_even_bounds:
  "of_int (round_even r) - 1 / 2 \<le> r" "r \<le> of_int (round_even r) + 1 / 2"
  unfolding round_even_def Let_def by (simp_all; linarith)+

lemma round_even_floor: "\<lfloor>r\<rfloor> \<le> round_even r" "round_even r \<le> \<lfloor>r\<rfloor> + 1"
  unfolding round_even_def Let_def by simp_all

lemma round_even_of_int [simp]: "round_even (of_int n) = n"
  by (simp add: round_even_def)

lemma round_even_mono: "r \<le> s \<Longrightarrow> round_even r \<le> round_even s"
proof -
  assume rs: "r \<le> s"
  then have "\<lfloor>r\<rfloor> \<le> \<lfloor>s\<rfloor>" by (rule floor_mono)
  then consider "\<lfloor>r\<rfloor> = \<lfloor>s\<rfloor>" | "\<lfloor>r\<rfloor> + 1 \<le> \<lfloor>s\<rfloor>" by linarith
  then show ?thesis
  proof cases
    case 1
    with rs show ?thesis
      unfolding round_even_def Let_def by auto
  next
    case 2
    with round_even_floor(2) [of r] round_even_floor(1) [of s] show ?thesis by linarith
  qed
qed

lemma round_even_minus: "round_even (- r) = - round_even r"
proof (cases "r \<in> \<int>")
  case True
  then obtain n where "r = of_int n" by (auto elim: Ints_cases)
  then have "- r = of_int (- n)" by simp
  then show ?thesis unfolding \<open>r = of_int n\<close> by (simp only: round_even_of_int)
next
  case False
  then have "r \<noteq> of_int \<lfloor>r\<rfloor>"
    by (metis Ints_of_int)
  then have fl: "\<lfloor>- r\<rfloor> = - \<lfloor>r\<rfloor> - 1"
    by (simp add: ceiling_altdef floor_minus)
  show ?thesis
    unfolding round_even_def Let_def fl by (auto; linarith?)
qed

lemma powr_2_of_int: "(2::real) powr real_of_int k = 2 powi k"
  by (simp add: powr_real_of_int')

lemma binade_iff:
  assumes "x \<noteq> 0"
  shows "(binade x = k) = (2 powi k \<le> \<bar>x\<bar> \<and> \<bar>x\<bar> < 2 powi (k + 1))"
proof -
  have "(\<lfloor>log 2 \<bar>x\<bar>\<rfloor> = k)
      = (2 powr real_of_int k \<le> \<bar>x\<bar> \<and> \<bar>x\<bar> < 2 powr real_of_int (k + 1))"
    using assms by (intro floor_log_eq_powr_iff) simp_all
  then show ?thesis
    by (simp only: powr_2_of_int binade_def)
qed

lemma binade_bounds:
  assumes "x \<noteq> 0"
  shows "2 powi binade x \<le> \<bar>x\<bar>" "\<bar>x\<bar> < 2 powi (binade x + 1)"
  using binade_iff [OF assms, of "binade x"] by simp_all

lemma binade_eqI:
  assumes "2 powi k \<le> \<bar>x\<bar>" "\<bar>x\<bar> < 2 powi (k + 1)"
  shows "binade x = k"
proof -
  have "(0::real) < 2 powi k" by simp
  with assms(1) have "0 < \<bar>x\<bar>" by linarith
  then have "x \<noteq> 0" by simp
  from binade_iff [OF this, of k] assms show ?thesis by simp
qed

lemma binade_minus [simp]: "binade (- x) = binade x"
  by (simp add: binade_def)

lemma quantum_minus [simp]: "quantum (- x) = quantum x"
  by (simp add: quantum_def)

lemma quantum_pos [simp]: "0 < quantum x"
  by (simp add: quantum_def)

lemma float64_minus: "float64 (- x) = - float64 x"
  by (simp add: float64_def round_even_minus)

lemma binade_mono:
  assumes "x \<noteq> 0" "\<bar>x\<bar> \<le> \<bar>y\<bar>"
  shows "binade x \<le> binade y"
proof -
  from assms have y: "y \<noteq> 0" by auto
  have "(2::real) powi binade x < 2 powi (binade y + 1)"
    using binade_bounds(1) [OF assms(1)] binade_bounds(2) [OF y] assms(2) by linarith
  moreover have "(2::real) powi (binade y + 1) \<le> 2 powi binade x" if "binade y + 1 \<le> binade x"
    using that by (intro power_int_increasing) simp_all
  ultimately have "binade x < binade y + 1"
    by (rule_tac ccontr) simp
  then show ?thesis by simp
qed

lemma float64_nonneg: "0 \<le> x \<Longrightarrow> 0 \<le> float64 x"
proof -
  assume "0 \<le> x"
  then have "0 \<le> x / quantum x"
    by (intro divide_nonneg_pos quantum_pos)
  then have "round_even 0 \<le> round_even (x / quantum x)"
    by (rule round_even_mono)
  then have "0 \<le> round_even (x / quantum x)"
    by (simp add: round_even_def)
  then have "0 \<le> real_of_int (round_even (x / quantum x)) * quantum x"
    by (intro mult_nonneg_nonneg less_imp_le [OF quantum_pos]) simp
  then show ?thesis
    by (simp add: float64_def)
qed

lemma float64_nonpos: "x \<le> 0 \<Longrightarrow> float64 x \<le> 0"
  using float64_nonneg [of "- x"] by (simp add: float64_minus)

text \<open>Rounding to multiples of a quantum keeps a bound that is such a multiple.\<close>

lemma round_le_multiple:
  assumes "0 < q" "x \<le> of_int n * q"
  shows "of_int (round_even (x / q)) * q \<le> of_int n * q"
proof -
  from assms have "x / q \<le> of_int n"
    by (simp add: pos_divide_le_eq)
  then have "round_even (x / q) \<le> round_even (of_int n)"
    by (rule round_even_mono)
  then show ?thesis
    using assms(1) by simp
qed

lemma round_ge_multiple:
  assumes "0 < q" "of_int n * q \<le> x"
  shows "of_int n * q \<le> of_int (round_even (x / q)) * q"
proof -
  from assms have "of_int n \<le> x / q"
    by (simp add: pos_le_divide_eq)
  then have "round_even (of_int n) \<le> round_even (x / q)"
    by (rule round_even_mono)
  then show ?thesis
    using assms(1) by simp
qed

lemma quantum_exponent:
  "max (binade x) (- 1022) = e \<Longrightarrow> quantum x = 2 powi (e - 52)"
  by (simp add: quantum_def)

lemma float64_le_binade:
  assumes "0 < x"
  shows "float64 x \<le> 2 powi (max (binade x) (- 1022) + 1)"
proof -
  let ?e = "max (binade x) (- 1022)"
  have q: "quantum x = 2 powi (?e - 52)"
    by (simp add: quantum_def)
  have "x < 2 powi (binade x + 1)"
    using binade_bounds(2) [of x] assms by simp
  also have "\<dots> \<le> 2 powi (?e + 1)"
    by (intro power_int_increasing) simp_all
  also have "\<dots> = of_int (2 ^ 53) * quantum x"
    unfolding q by (simp add: power_int_diff power_int_add)
  finally have "x \<le> of_int (2 ^ 53) * quantum x" by simp
  then have "of_int (round_even (x / quantum x)) * quantum x \<le> of_int (2 ^ 53) * quantum x"
    by (intro round_le_multiple) simp_all
  also have "\<dots> = 2 powi (?e + 1)"
    unfolding q by (simp add: power_int_diff power_int_add)
  finally show ?thesis
    using assms by (simp add: float64_def)
qed

lemma float64_ge_binade:
  assumes "0 < x" "- 1022 \<le> binade x"
  shows "2 powi binade x \<le> float64 x"
proof -
  have q: "quantum x = 2 powi (binade x - 52)"
    using assms(2) by (simp add: quantum_def max_def)
  have eq: "2 powi binade x = of_int (2 ^ 52) * quantum x"
    unfolding q by (simp add: power_int_diff)
  have "2 powi binade x \<le> x"
    using binade_bounds(1) [of x] assms by simp
  then have "of_int (2 ^ 52) * quantum x \<le> x"
    by (simp only: eq)
  then have "of_int (2 ^ 52) * quantum x \<le> of_int (round_even (x / quantum x)) * quantum x"
    by (intro round_ge_multiple) simp_all
  then show ?thesis
    using assms by (simp add: float64_def eq)
qed

lemma float64_mono_pos:
  assumes "0 < x" "x \<le> y"
  shows "float64 x \<le> float64 y"
proof -
  let ?ex = "max (binade x) (- 1022)" and ?ey = "max (binade y) (- 1022)"
  from assms have y: "0 < y" by simp
  have b: "binade x \<le> binade y"
    using assms by (intro binade_mono) simp_all
  then consider "?ex = ?ey" | "?ex < ?ey" by linarith
  then show ?thesis
  proof cases
    case 1
    then have q: "quantum x = quantum y"
      by (simp add: quantum_def)
    have "x / quantum y \<le> y / quantum y"
      using assms(2) by (intro divide_right_mono less_imp_le [OF quantum_pos])
    then have "round_even (x / quantum y) \<le> round_even (y / quantum y)"
      by (rule round_even_mono)
    then show ?thesis
      using assms y by (simp add: float64_def q)
  next
    case 2
    then have bnd: "- 1022 \<le> binade y" "?ex + 1 \<le> binade y"
      by linarith+
    have "float64 x \<le> 2 powi (?ex + 1)"
      by (rule float64_le_binade [OF assms(1)])
    also have "\<dots> \<le> 2 powi binade y"
      using bnd(2) by (intro power_int_increasing) simp_all
    also have "\<dots> \<le> float64 y"
      by (rule float64_ge_binade [OF y bnd(1)])
    finally show ?thesis .
  qed
qed

lemma float64_mono: "x \<le> y \<Longrightarrow> float64 x \<le> float64 y"
proof -
  assume xy: "x \<le> y"
  consider "0 < x" | "x \<le> 0" "0 \<le> y" | "y < 0" by linarith
  then show ?thesis
  proof cases
    case 1
    then show ?thesis using xy by (rule float64_mono_pos)
  next
    case 2
    then show ?thesis
      using float64_nonpos [of x] float64_nonneg [of y] by linarith
  next
    case 3
    then have "float64 (- y) \<le> float64 (- x)"
      using xy by (intro float64_mono_pos) simp_all
    then show ?thesis
      by (simp add: float64_minus)
  qed
qed

lemma float64_0 [simp]: "float64 0 = 0"
  by (simp add: float64_def)

lemma binade_1: "binade 1 = 0"
  by (rule binade_eqI) simp_all

lemma float64_1 [simp]: "float64 1 = 1"
  by (simp add: float64_def quantum_def binade_1 power_int_minus round_even_def)

text \<open>
  The doubles next to 1 from below are \<open>1 - 1 / 2 ^ 53\<close> and 1: a number above their
  midpoint rounds to 1.
\<close>

lemma float64_near_1:
  assumes "1 - 1 / 2 ^ 54 < x" "x \<le> 1"
  shows "float64 x = 1"
proof (cases "x = 1")
  case True
  then show ?thesis by simp
next
  case False
  with assms have x: "1 / 2 \<le> x" "x < 1" by simp_all
  have b: "binade x = - 1"
    using x by (intro binade_eqI) (simp_all add: power_int_minus)
  have q: "quantum x = 1 / 2 ^ 53"
    by (simp add: quantum_def b power_int_minus)
  have lo: "2 ^ 53 - 1 / 2 < x * 2 ^ 53"
    using assms(1) by simp
  have hi: "x * 2 ^ 53 < 2 ^ 53"
    using x(2) by simp
  have "\<lfloor>x * 2 ^ 53\<rfloor> = 2 ^ 53 - 1"
    using lo hi by (simp add: floor_unique)
  then have "round_even (x * 2 ^ 53) = 2 ^ 53"
    using lo unfolding round_even_def Let_def by simp
  then show ?thesis
    using x by (simp add: float64_def q)
qed

text \<open>The rounding error: half a quantum, relative to the number but for the subnormals.\<close>

lemma float64_error: "\<bar>float64 x - x\<bar> \<le> \<bar>x\<bar> / 2 ^ 53 + 1 / 2 ^ 1075"
proof (cases "x = 0")
  case True
  then show ?thesis by simp
next
  case False
  let ?q = "quantum x"
  let ?n = "real_of_int (round_even (x / ?q))"
  have "?n - 1 / 2 \<le> x / ?q" "x / ?q \<le> ?n + 1 / 2"
    by (rule round_even_bounds)+
  then have "(?n - 1 / 2) * ?q \<le> x" "x \<le> (?n + 1 / 2) * ?q"
    by (simp_all add: pos_le_divide_eq pos_divide_le_eq)
  then have "?n * ?q - x \<le> ?q / 2" "x - ?n * ?q \<le> ?q / 2"
    by (simp_all add: algebra_simps)
  then have err: "\<bar>?n * ?q - x\<bar> \<le> ?q / 2"
    by linarith
  have "?q \<le> \<bar>x\<bar> / 2 ^ 52 + 1 / 2 ^ 1074"
  proof (cases "- 1022 \<le> binade x")
    case True
    then have "?q = 2 powi binade x / 2 ^ 52"
      by (simp add: quantum_def max_def power_int_diff)
    also have "\<dots> \<le> \<bar>x\<bar> / 2 ^ 52"
      using binade_bounds(1) [OF False] by (simp add: divide_right_mono)
    finally show ?thesis by simp
  next
    case False
    then have "?q = 1 / 2 ^ 1074"
      by (simp add: quantum_def max_def power_int_minus)
    then show ?thesis by simp
  qed
  then have "?q / 2 \<le> \<bar>x\<bar> / 2 ^ 53 + 1 / 2 ^ 1075"
    by simp
  with err show ?thesis
    using False by (simp add: float64_def)
qed

text \<open>The value of \<open>float64\<close> at a number whose binade is known.\<close>

lemma float64_eval:
  assumes "2 powi k \<le> \<bar>x\<bar>" "\<bar>x\<bar> < 2 powi (k + 1)" "- 1022 \<le> k"
  shows "float64 x = of_int (round_even (x / 2 powi (k - 52))) * 2 powi (k - 52)"
proof -
  have b: "binade x = k"
    using assms(1,2) by (rule binade_eqI)
  have "(0::real) < 2 powi k" by simp
  with assms(1) have "0 < \<bar>x\<bar>" by linarith
  then have "x \<noteq> 0" by simp
  then show ?thesis
    using assms(3) by (simp add: float64_def quantum_def b max_def)
qed

lemma float64_day: "float64 (1 / 365) = 3158689053717389 / 1152921504606846976"
  by (subst float64_eval [of "- 9"]) (simp_all add: power_int_minus round_even_def)

lemma float64_30_days: "float64 (6 / 73) = 740317746965013 / 9007199254740992"
  by (subst float64_eval [of "- 4"]) (simp_all add: power_int_minus round_even_def)

lemma float64_40_day: "float64 (46120018873327596429 / 1152921504606846976) = 2814942558186499 / 70368744177664"
  by (subst float64_eval [of 5]) (simp_all add: power_int_minus round_even_def)

lemma float64_95_day: "float64 (109530701626704180109 / 1152921504606846976) = 6685223487958019 / 70368744177664"
  by (subst float64_eval [of 6]) (simp_all add: power_int_minus round_even_def)

lemma float64_40_5_30_days: "float64 (365531887563975189 / 9007199254740992) = 713929467898389 / 17592186044416"
  by (subst float64_eval [of 5]) (simp_all add: power_int_minus round_even_def)

lemma float64_81_30_days: "float64 (730323457380985365 / 9007199254740992) = 1426413002697237 / 17592186044416"
  by (subst float64_eval [of 6]) (simp_all add: power_int_minus round_even_def)

lemma float64_short_of_40: "float64 (46116860184273875853 / 1152921504606846976) = 40"
  by (subst float64_eval [of 5]) (simp_all add: power_int_minus round_even_def)

lemma float64_10_19: "float64 (11529215046068469760003158689053717389 / 1152921504606846976) = 10000000000000000000"
  by (subst float64_eval [of 63]) (simp_all add: power_int_minus round_even_def)

text \<open>
  The sum that \<^verbatim>\<open>advance_age\<close> stores differs from the exact one by the
  rounding of the quotient and of the sum.
\<close>

lemma abs_sum_error:
  fixes a b :: real
  assumes "\<bar>a\<bar> \<le> P / c + e" "\<bar>b\<bar> \<le> R / c + e"
  shows "\<bar>a + b\<bar> \<le> (P + R) / c + (e + e)"
  using assms by (simp add: add_divide_distrib)

lemma half_subnormal: "(1 / 2 ^ 1075 + 1 / 2 ^ 1075 :: real) = 1 / 2 ^ 1074"
  by simp

lemma float64_sum_error:
  "\<bar>float64 (x + float64 d) - (x + d)\<bar> \<le> (\<bar>x + float64 d\<bar> + \<bar>d\<bar>) / 2 ^ 53 + 1 / 2 ^ 1074"
proof -
  have "\<bar>float64 (x + float64 d) - (x + float64 d)\<bar> \<le> \<bar>x + float64 d\<bar> / 2 ^ 53 + 1 / 2 ^ 1075"
    by (rule float64_error)
  moreover have "\<bar>float64 d - d\<bar> \<le> \<bar>d\<bar> / 2 ^ 53 + 1 / 2 ^ 1075"
    by (rule float64_error)
  ultimately have "\<bar>(float64 (x + float64 d) - (x + float64 d)) + (float64 d - d)\<bar>
      \<le> (\<bar>x + float64 d\<bar> + \<bar>d\<bar>) / 2 ^ 53 + (1 / 2 ^ 1075 + 1 / 2 ^ 1075)"
    by (rule abs_sum_error)
  moreover have "(float64 (x + float64 d) - (x + float64 d)) + (float64 d - d)
      = float64 (x + float64 d) - (x + d)"
    by (simp only: algebra_simps)
  ultimately show ?thesis
    by (simp only: half_subnormal)
qed

section \<open>Properties of the rate math\<close>

lemma exp_38_lower: "5 * 2 ^ 52 \<le> exp (38 :: real)"
proof -
  have "(41 / 32 :: real) \<le> exp (1 / 4)"
    using exp_lower_Taylor_quadratic [of "1 / 4 :: real"] by (simp add: power2_eq_square)
  then have "(41 / 32 :: real) ^ 152 \<le> exp (1 / 4) ^ 152"
    by (intro power_mono) simp_all
  also have "\<dots> = exp (of_nat 152 * (1 / 4 :: real))"
    by (rule exp_of_nat_mult [symmetric])
  also have "\<dots> = exp 38"
    by simp
  finally have "(41 / 32 :: real) ^ 152 \<le> exp 38" .
  moreover have "(5 * 2 ^ 52 :: real) \<le> (41 / 32) ^ 152"
    by (simp add: power_divide)
  ultimately show ?thesis by linarith
qed

lemma exp_minus_38_upper:
  assumes "38 \<le> t"
  shows "exp (- t) + exp (- t) / 2 ^ 50 + 1 / 2 ^ 1074 < (1 / 2 ^ 54 :: real)"
proof -
  have "exp (- t) \<le> exp (- 38 :: real)"
    using assms by simp
  also have "\<dots> = 1 / exp 38"
    by (simp add: exp_minus inverse_eq_divide)
  also have "\<dots> \<le> 1 / (5 * 2 ^ 52)"
    using exp_38_lower by (intro divide_left_mono) simp_all
  finally have "exp (- t) \<le> 1 / (5 * 2 ^ 52)" .
  moreover have "(1 / (5 * 2 ^ 52) + 1 / (5 * 2 ^ 52) / 2 ^ 50 + 1 / 2 ^ 1074 :: real) < 1 / 2 ^ 54"
    by simp
  ultimately show ?thesis
    by (simp add: field_simps) 
qed





lemma exp_routine_range:
  assumes "exp_routine fexp"
  shows "0 \<le> fexp x" and "x \<le> 0 \<Longrightarrow> fexp x \<le> 1"
proof -
  show "0 \<le> fexp x"
    using assms by (simp add: exp_routine_def)
  assume "x \<le> 0"
  moreover from assms have "mono fexp" "fexp 0 = 1"
    by (simp_all add: exp_routine_def)
  ultimately show "fexp x \<le> 1"
    by (metis monoD)
qed

lemma rate_to_probability_mono:
  assumes "exp_routine fexp" "r \<le> r'"
  shows "rate_to_probability fexp r \<le> rate_to_probability fexp r'"
proof -
  from assms(1) have "mono fexp"
    by (simp add: exp_routine_def)
  with assms(2) have "fexp (- r') \<le> fexp (- r)"
    by (intro monoD [of fexp]) simp_all
  then show ?thesis
    unfolding rate_to_probability_def by (intro float64_mono) simp
qed

lemma rate_to_probability_one:
  assumes "exp_routine fexp" "38 \<le> t"
  shows "rate_to_probability fexp t = 1"
proof -
  from assms(1) have "0 \<le> fexp (- t)"
    and "fexp (- t) \<le> exp (- t) + exp (- t) / 2 ^ 50 + 1 / 2 ^ 1074"
    by (simp_all add: exp_routine_def)
  with exp_minus_38_upper [OF assms(2)] have "1 - 1 / 2 ^ 54 < 1 - fexp (- t)" "1 - fexp (- t) \<le> 1"
    by linarith+
  then show ?thesis
    unfolding rate_to_probability_def by (rule float64_near_1)
qed

lemma rate_to_probability_limit:
  assumes "exp_routine fexp"
  shows "(rate_to_probability fexp \<longlongrightarrow> 1) at_top"
proof -
  have "eventually (\<lambda>t. rate_to_probability fexp t = 1) at_top"
    unfolding eventually_at_top_linorder
    using rate_to_probability_one [OF assms] by (intro exI [of _ 38]) simp
  then show ?thesis
    by (rule tendsto_eventually)
qed

lemma rate_to_probability_range:
  assumes "exp_routine fexp"
  shows "rate_to_probability fexp t \<le> 1" and "0 \<le> s \<Longrightarrow> 0 \<le> rate_to_probability fexp s"
proof -
  have "float64 (1 - fexp (- t)) \<le> float64 1"
    using exp_routine_range(1) [OF assms, of "- t"] by (intro float64_mono) simp
  then show "rate_to_probability fexp t \<le> 1"
    by (simp add: rate_to_probability_def)
  assume "0 \<le> s"
  then have "fexp (- s) \<le> 1"
    by (intro exp_routine_range(2) [OF assms]) simp
  then show "0 \<le> rate_to_probability fexp s"
    unfolding rate_to_probability_def by (intro float64_nonneg) simp
qed

lemma exp_routine_exp64: "exp_routine exp64"
proof -
  have "mono exp64"
    unfolding exp64_def by (intro monoI float64_mono) simp
  moreover have "exp64 0 = 1"
    by (simp add: exp64_def)
  moreover have "0 \<le> exp64 x \<and> exp64 x \<le> exp x + exp x / 2 ^ 50 + 1 / 2 ^ 1074" for x
  proof
    show "0 \<le> exp64 x"
      unfolding exp64_def by (intro float64_nonneg) simp
    have "float64 (exp x) - exp x \<le> exp x / 2 ^ 53 + 1 / 2 ^ 1075"
      using float64_error [of "exp x"] by simp
    moreover have "exp x / 2 ^ 53 \<le> exp x / 2 ^ 50"
      by (intro divide_left_mono power_increasing) simp_all
    moreover have "(1 / 2 ^ 1075 :: real) \<le> 1 / 2 ^ 1074"
      by simp
    ultimately show "exp64 x \<le> exp x + exp x / 2 ^ 50 + 1 / 2 ^ 1074"
      unfolding exp64_def by linarith
  qed
  ultimately show ?thesis
    unfolding exp_routine_def by simp
qed

text \<open>
  C8, as the code has it. \<^verbatim>\<open>rate_to_probability(rate) = 1 - np.exp(-rate)\<close>,
  computed in float64 with an exponential routine as \<open>exp_routine\<close> describes it, is
  0 at rate 0, is monotone in the rate, tends to 1 as the rate grows without bound, is
  not negative on rates (a rate being a non-negative number) and never exceeds 1. It is
  not always below 1: from the rate 38 on the exponential is less than half the distance
  from 1 to the double before it, the subtraction rounds to 1, and the probability is
  exactly 1.
\<close>

theorem rate_to_probability_laws:
  assumes "exp_routine fexp"
  shows "rate_to_probability fexp 0 = 0
   \<and> (r \<le> r' \<longrightarrow> rate_to_probability fexp r \<le> rate_to_probability fexp r')
   \<and> (rate_to_probability fexp \<longlongrightarrow> 1) at_top
   \<and> (38 \<le> t \<longrightarrow> rate_to_probability fexp t = 1)
   \<and> (0 \<le> s \<longrightarrow> 0 \<le> rate_to_probability fexp s)
   \<and> rate_to_probability fexp u \<le> 1"
proof -
  from assms have "fexp 0 = 1"
    by (simp add: exp_routine_def)
  then have "rate_to_probability fexp 0 = 0"
    by (simp add: rate_to_probability_def)
  then show ?thesis
    using rate_to_probability_mono [OF assms] rate_to_probability_limit [OF assms]
      rate_to_probability_one [OF assms] rate_to_probability_range [OF assms]
    by (intro conjI impI)
qed

theorem rate_to_probability_laws_witness:
  "exp_routine exp64
   \<and> rate_to_probability exp64 0 = 0
   \<and> (1::real) \<le> 2 \<and> rate_to_probability exp64 1 \<le> rate_to_probability exp64 2
   \<and> (38::real) \<le> 40 \<and> rate_to_probability exp64 40 = 1
   \<and> (0::real) \<le> 1 \<and> 0 \<le> rate_to_probability exp64 1 \<and> rate_to_probability exp64 1 \<le> 1"
  using rate_to_probability_laws [OF exp_routine_exp64, of 1 2 40 1 1] exp_routine_exp64
  by simp

text \<open>
  C8 as stated fails on the bound: with the correctly rounded exponential, the
  probability of the rate 38 is 1, which is not in the interval from 0 up to but
  excluding 1.
\<close>

theorem rate_to_probability_one_counterexample:
  "rate_to_probability exp64 38 = 1 \<and> \<not> rate_to_probability exp64 38 < 1"
  using rate_to_probability_one [OF exp_routine_exp64, of 38] by simp

section \<open>Properties of the module order\<close>

lemma dependency_loop_error:
  "dependency_loop reg srt ds i = Inl e \<Longrightarrow> e = KeyError \<or> e = NameError"
  by (induction ds arbitrary: i) (auto split: option.splits)

lemma dependency_loop_unregistered:
  "d \<in> set ds \<Longrightarrow> reg d = None \<Longrightarrow> \<exists>e. dependency_loop reg srt ds i = Inl e"
  by (induction ds arbitrary: i) (auto split: option.splits)

lemma inner_sort_error:
  "inner_sort reg srt m = Inl e \<Longrightarrow> e = KeyError \<or> e = NameError"
  by (auto simp: inner_sort_def split: if_splits sum.splits dest: dependency_loop_error)

lemma inner_sort_unregistered:
  "d \<in> set (DEPENDENCIES m) \<Longrightarrow> reg d = None \<Longrightarrow> \<exists>e. inner_sort reg srt m = Inl e"
  using dependency_loop_unregistered [of d "DEPENDENCIES m" reg srt 0]
  by (auto simp: inner_sort_def)

lemma set_inner_sort:
  "inner_sort reg srt m = Inr ys \<Longrightarrow> set ys = insert m (set srt)"
proof -
  have "set (take n srt) \<union> set (drop n srt) = set srt" for n
    by (metis append_take_drop_id set_append)
  then show "inner_sort reg srt m = Inr ys \<Longrightarrow> set ys = insert m (set srt)"
    by (auto simp: inner_sort_def split: if_splits sum.splits)
qed

lemma sort_loop_error:
  "sort_loop reg xs srt = Inl e \<Longrightarrow> e = KeyError \<or> e = NameError"
  by (induction xs arbitrary: srt) (auto split: if_splits sum.splits dest: inner_sort_error)

text \<open>
  Once a module with an unregistered dependency is among those still to be popped, the
  loop cannot return a list: every module popped before it either raises or is added,
  and the module itself raises.
\<close>

lemma sort_loop_unregistered:
  "m \<in> set xs \<Longrightarrow> d \<in> set (DEPENDENCIES m) \<Longrightarrow> reg d = None \<Longrightarrow> distinct xs
   \<Longrightarrow> set xs \<inter> set srt = {} \<Longrightarrow> \<exists>e. sort_loop reg xs srt = Inl e"
proof (induction xs arbitrary: srt)
  case Nil
  then show ?case by simp
next
  case (Cons x xs)
  have nonempty: "set (x # xs) - set srt \<noteq> {}"
    using Cons.prems(5) by auto
  show ?case
  proof (cases "inner_sort reg srt x")
    case (Inl e)
    with nonempty show ?thesis by simp
  next
    case (Inr ys)
    then have ys: "set ys = insert x (set srt)"
      by (rule set_inner_sort)
    have "m \<noteq> x"
      using Inr inner_sort_unregistered [of d m reg srt] Cons.prems(2,3) by auto
    then have "m \<in> set xs"
      using Cons.prems(1) by simp
    moreover have "distinct xs" "set xs \<inter> set ys = {}"
      using Cons.prems(4,5) ys by auto
    ultimately have "\<exists>e. sort_loop reg xs ys = Inl e"
      using Cons.IH Cons.prems(2,3) by blast
    with nonempty Inr show ?thesis by simp
  qed
qed

subsection \<open>What an order that is returned looks like\<close>

text \<open>
  When the sort returns, every module was popped after its dependencies had been placed:
  the result holds the modules to sort, each once, and every module comes after each of
  the modules it depends on.
\<close>

lemma list_index_Some: "list_index xs x = Some j \<Longrightarrow> j < length xs \<and> xs ! j = x"
  by (induction xs arbitrary: j) (auto split: if_splits)

lemma dependency_loop_found:
  "dependency_loop reg srt ds i = Inr k \<Longrightarrow> d \<in> set ds
   \<Longrightarrow> \<exists>m' j. reg d = Some m' \<and> list_index srt m' = Some j \<and> j \<le> k"
proof (induction ds arbitrary: i)
  case Nil
  then show ?case by simp
next
  case (Cons a ds)
  from Cons.prems(1) obtain m' j where
    a: "reg a = Some m'" "list_index srt m' = Some j"
    and rest: "dependency_loop reg srt ds (max i j) = Inr k"
    by (auto split: option.splits)
  have mono: "i' \<le> k" if "dependency_loop reg srt ds i' = Inr k" for i'
    using that
  proof (induction ds arbitrary: i')
    case Nil
    then show ?case by simp
  next
    case (Cons b ds)
    from Cons.prems obtain j' where "dependency_loop reg srt ds (max i' j') = Inr k"
      by (auto split: option.splits)
    from Cons.IH [OF this] show ?case by simp
  qed
  show ?case
  proof (cases "d = a")
    case True
    with a mono [OF rest] show ?thesis by auto
  next
    case False
    with Cons.prems(2) have "d \<in> set ds" by simp
    from Cons.IH [OF rest this] show ?thesis .
  qed
qed

lemma subseq_insert: "subseq (take n xs @ drop n xs) (take n xs @ [x] @ drop n xs)"
  by (intro list_emb_append_mono subseq_order.order_refl) auto

lemma inner_sort_follows:
  assumes "inner_sort reg srt m = Inr ys" and "m \<notin> set srt"
  shows "subseq srt ys"
    and "\<forall>d \<in> set (DEPENDENCIES m). \<exists>m'. reg d = Some m' \<and> m' \<noteq> m \<and> subseq [m', m] ys"
proof -
  show "subseq srt ys"
    using assms(1) subseq_insert [of _ srt m]
    by (auto simp: inner_sort_def split: if_splits sum.splits)
  show "\<forall>d \<in> set (DEPENDENCIES m). \<exists>m'. reg d = Some m' \<and> m' \<noteq> m \<and> subseq [m', m] ys"
  proof
    fix d assume d: "d \<in> set (DEPENDENCIES m)"
    then have "DEPENDENCIES m \<noteq> []" by auto
    with assms(1) obtain k where
      k: "dependency_loop reg srt (DEPENDENCIES m) 0 = Inr k"
      and ys: "ys = take (k + 1) srt @ [m] @ drop (k + 1) srt"
      by (auto simp: inner_sort_def split: sum.splits)
    from dependency_loop_found [OF k d] obtain m' j where
      m': "reg d = Some m'" "list_index srt m' = Some j" "j \<le> k"
      by (elim exE conjE)
    from list_index_Some [OF m'(2)] m'(3) have "m' \<in> set (take (k + 1) srt)"
      by (auto simp: in_set_conv_nth intro!: exI [of _ j])
    then have "subseq [m'] (take (k + 1) srt)"
      by (simp add: subseq_singleton_left)
    then have "subseq ([m'] @ [m]) (take (k + 1) srt @ [m] @ drop (k + 1) srt)"
      by (intro list_emb_append_mono) auto
    moreover have "m' \<noteq> m"
      using list_index_Some [OF m'(2)] assms(2) by auto
    ultimately show "\<exists>m'. reg d = Some m' \<and> m' \<noteq> m \<and> subseq [m', m] ys"
      using m'(1) ys by auto
  qed
qed

lemma sort_loop_follows:
  "sort_loop reg xs srt = Inr ys \<Longrightarrow> distinct xs \<Longrightarrow> set xs \<inter> set srt = {}
   \<Longrightarrow> distinct srt \<Longrightarrow> follows_dependencies reg srt
   \<Longrightarrow> set ys = set xs \<union> set srt \<and> distinct ys \<and> follows_dependencies reg ys"
proof (induction xs arbitrary: srt)
  case Nil
  then show ?case by simp
next
  case (Cons x xs)
  have x: "x \<notin> set srt"
    using Cons.prems(3) by auto
  then have "set (x # xs) - set srt \<noteq> {}"
    by auto
  with Cons.prems(1) have "(case inner_sort reg srt x of Inl e \<Rightarrow> Inl e
      | Inr srt' \<Rightarrow> sort_loop reg xs srt') = Inr ys"
    by (simp only: sort_loop.simps if_False)
  then obtain srt' where
    step: "inner_sort reg srt x = Inr srt'"
    and rest: "sort_loop reg xs srt' = Inr ys"
    by (cases "inner_sort reg srt x") simp_all
  have set': "set srt' = insert x (set srt)"
    using step by (rule set_inner_sort)
  have len: "length srt' = Suc (length srt)"
    using step by (auto simp: inner_sort_def split: if_splits sum.splits)
  have d': "distinct srt'"
  proof -
    have "card (set srt') = length srt'"
      using set' x Cons.prems(4) len by (simp add: distinct_card)
    then show ?thesis by (rule card_distinct)
  qed
  have sub: "subseq srt srt'"
    and new: "\<forall>d \<in> set (DEPENDENCIES x). \<exists>m'. reg d = Some m' \<and> m' \<noteq> x \<and> subseq [m', x] srt'"
    using inner_sort_follows [OF step x] by simp_all
  have f': "follows_dependencies reg srt'"
    unfolding follows_dependencies_def
  proof (intro ballI)
    fix m d assume m: "m \<in> set srt'" and d: "d \<in> set (DEPENDENCIES m)"
    show "\<exists>m'. reg d = Some m' \<and> m' \<noteq> m \<and> subseq [m', m] srt'"
    proof (cases "m = x")
      case True
      with new d show ?thesis by simp
    next
      case False
      with m set' have "m \<in> set srt" by simp
      with Cons.prems(5) d obtain m' where
        "reg d = Some m'" "m' \<noteq> m" "subseq [m', m] srt"
        unfolding follows_dependencies_def by blast
      with sub show ?thesis
        using subseq_order.order_trans by blast
    qed
  qed
  have "distinct xs" "set xs \<inter> set srt' = {}"
    using Cons.prems(2,3) set' by auto
  from Cons.IH [OF rest this d' f'] set' show ?case
    by auto
qed

lemma sort_modules_follows:
  assumes "sort_modules ord to_sort reg = Inr ys"
    and "set (ord to_sort) = to_sort" "distinct (ord to_sort)"
  shows "set ys = to_sort \<and> distinct ys \<and> follows_dependencies reg ys"
proof -
  have "follows_dependencies reg []"
    by (simp add: follows_dependencies_def)
  with sort_loop_follows [of reg "ord to_sort" "[]" ys] assms show ?thesis
    by (simp add: sort_modules_def)
qed

lemma register_module_base_first:
  assumes "register_module ord s m = Inr s'"
  shows "\<exists>base rest. (modules s') BaseSimulationModule = Some base
     \<and> ordered_modules s' = base # rest"
  using assms
  by (auto simp: register_module_def Let_def split: option.splits sum.splits)

lemma module_U_fields: "DEPENDENCIES module_U = [''Missing'']"
  by (simp add: module_U_def SimulationModule_init_def)

text \<open>
  C3, at two inputs whose dependencies are all registered and acyclic. Registering a
  module D that depends on the base module raises \<^verbatim>\<open>NameError\<close>: the base
  module is taken out of \<^verbatim>\<open>to_sort\<close>, so it is never in
  \<^verbatim>\<open>sorted_modules\<close>, and the handler of the failed \<^verbatim>\<open>index\<close> names
  the unbound variable \<^verbatim>\<open>modules\<close>. Sorting A and B, where B depends on A,
  raises \<^verbatim>\<open>NameError\<close> in the same way when \<^verbatim>\<open>pop()\<close> yields B
  before A. The claim asks for the orders (base, D) and (A, B).
\<close>

theorem register_module_dependency_fails:
  "register_module (\<lambda>S. [module_D]) Simulation_init module_D = Inl NameError
   \<and> sort_modules (\<lambda>S. [module_B, module_A]) {module_A, module_B}
        [''A'' \<mapsto> module_A, ''B'' \<mapsto> module_B] = Inl NameError"
  by (simp add: register_module_def sort_modules_def inner_sort_def Simulation_init_def
      module_D_def module_A_def module_B_def SimulationModule_init_def
      BaseSimulationModule_def BaseSimulationModule_init_def register_event_listener_def
      truthy_def)

text \<open>
  C4, as the code has it. When some module to be sorted declares a dependency on a class
  that is not in the registry, \<^verbatim>\<open>sort_modules\<close> returns no order, whatever the
  order in which the set is popped: it raises, and the exception is one of Python's,
  \<^verbatim>\<open>KeyError\<close> (the registry lookup of the missing class) or
  \<^verbatim>\<open>NameError\<close>.
\<close>

theorem sort_modules_unregistered_dependency:
  assumes "m \<in> to_sort" "d \<in> set (DEPENDENCIES m)" "modules_registry d = None"
    and "set (ord to_sort) = to_sort" "distinct (ord to_sort)"
  shows "\<exists>e. sort_modules ord to_sort modules_registry = Inl e \<and> (e = KeyError \<or> e = NameError)"
proof -
  have "\<exists>e. sort_loop modules_registry (ord to_sort) [] = Inl e"
    using assms by (intro sort_loop_unregistered [of m _ d]) auto
  then show ?thesis
    unfolding sort_modules_def using sort_loop_error by blast
qed

theorem sort_modules_unregistered_dependency_witness:
  "module_U \<in> {module_U} \<and> ''Missing'' \<in> set (DEPENDENCIES module_U)
   \<and> [''U'' \<mapsto> module_U] ''Missing'' = None
   \<and> (\<exists>e. sort_modules (\<lambda>S. [module_U]) {module_U} [''U'' \<mapsto> module_U] = Inl e
        \<and> (e = KeyError \<or> e = NameError))"
  using sort_modules_unregistered_dependency
    [of module_U "{module_U}" "''Missing''" "[''U'' \<mapsto> module_U]" "\<lambda>S. [module_U]"]
  by (simp add: module_U_fields)

text \<open>
  C4 as stated fails: for the module U alone, whose dependency is registered nowhere,
  the exception is \<^verbatim>\<open>KeyError\<close>, not \<^verbatim>\<open>UnresolvedDependencyError\<close>.
\<close>

theorem sort_modules_unregistered_counterexample:
  "sort_modules (\<lambda>S. [module_U]) {module_U} [''U'' \<mapsto> module_U] = Inl KeyError
   \<and> sort_modules (\<lambda>S. [module_U]) {module_U} [''U'' \<mapsto> module_U]
       \<noteq> Inl UnresolvedDependencyError"
  by (simp add: sort_modules_def inner_sort_def module_U_fields)

section \<open>Properties of the event handler\<close>

lemma enumerates_slot_order: "enumerates (slot_order :: 'a::linorder set \<Rightarrow> 'a list)"
  by (simp add: enumerates_def slot_order_def)

lemma registered_Nil: "registered [] = EventHandler_init"
  by (simp add: registered_def)

lemma registered_snoc:
  "registered (regs @ [(l, lab, p)]) = register_event_listener (registered regs) l lab p"
  by (simp add: registered_def)

lemma listeners_registered:
  "listeners (registered regs) lab = {l. truthy lab \<and> (\<exists>p. (l, lab, p) \<in> set regs)}"
proof (induction regs rule: rev_induct)
  case Nil
  then show ?case by (simp add: registered_Nil EventHandler_init_def)
next
  case (snoc r regs)
  obtain l lab' p where r: "r = (l, lab', p)" by (cases r)
  show ?case
    unfolding r registered_snoc using snoc
    by (auto simp: register_event_listener_def Let_def)
qed

lemma generic_listeners_registered:
  "generic_listeners (registered regs) = {l. \<exists>lab p. (l, lab, p) \<in> set regs \<and> \<not> truthy lab}"
proof (induction regs rule: rev_induct)
  case Nil
  then show ?case by (simp add: registered_Nil EventHandler_init_def)
next
  case (snoc r regs)
  obtain l lab' p where r: "r = (l, lab', p)" by (cases r)
  show ?case
    unfolding r registered_snoc using snoc
    by (auto simp: register_event_listener_def Let_def)
qed

lemma priorities_registered:
  "(listener_priorities (registered regs) (lab, l) \<noteq> None) = (\<exists>p. (l, lab, p) \<in> set regs)"
proof (induction regs rule: rev_induct)
  case Nil
  then show ?case by (simp add: registered_Nil EventHandler_init_def)
next
  case (snoc r regs)
  obtain l' lab' p where r: "r = (l', lab', p)" by (cases r)
  show ?case
    unfolding r registered_snoc using snoc
    by (auto simp: register_event_listener_def Let_def)
qed

lemma listener_priorities_registered:
  "listener_priorities (registered regs) (lab, l) = registered_priority regs lab l"
proof (induction regs rule: rev_induct)
  case Nil
  then show ?case
    by (simp add: registered_Nil EventHandler_init_def registered_priority_def)
next
  case (snoc r regs)
  obtain l' lab' p where r: "r = (l', lab', p)" by (cases r)
  show ?case
    unfolding r registered_snoc using snoc
    by (auto simp: register_event_listener_def Let_def registered_priority_def)
qed

lemma finite_listeners_registered: "finite (listeners (registered regs) lab)"
proof -
  have "listeners (registered regs) lab \<subseteq> fst ` set regs"
    by (force simp: listeners_registered)
  then show ?thesis by (rule finite_subset) simp
qed

lemma finite_generic_listeners_registered: "finite (generic_listeners (registered regs))"
proof -
  have "generic_listeners (registered regs) \<subseteq> fst ` set regs"
    by (force simp: generic_listeners_registered)
  then show ?thesis by (rule finite_subset) simp
qed

lemma generic_listeners_registered_None:
  assumes "Some [] \<notin> set (map (fst \<circ> snd) regs)"
  shows "generic_listeners (registered regs) = {l. \<exists>p. (l, None, p) \<in> set regs}"
proof -
  have "lab = None" if "\<not> truthy lab" "(l, lab, p) \<in> set regs" for l lab p
  proof (cases lab)
    case None
    then show ?thesis .
  next
    case (Some s)
    with that(1) have "lab = Some []" by (simp add: truthy_def)
    with that(2) assms show ?thesis by force
  qed
  then show ?thesis
    unfolding generic_listeners_registered by (auto simp: truthy_def)
qed

lemma prioritised_total:
  "\<forall>l \<in> set ls. pr (lab, l) \<noteq> None
   \<Longrightarrow> prioritised pr lab ls = Inr (map (\<lambda>l. (the (pr (lab, l)), l)) ls)"
  by (induction ls) auto

lemma prioritised_snd: "prioritised pr lab ls = Inr ps \<Longrightarrow> map snd ps = ls"
  by (induction ls arbitrary: ps) (auto split: option.splits sum.splits)

text \<open>
  On a handler built by registrations under \<^verbatim>\<open>None\<close> or a non-empty label,
  every listener that is collected has its priority: no \<^verbatim>\<open>KeyError\<close>.
\<close>

lemma emit_pairs_expected:
  assumes "enumerates ord" and "Some [] \<notin> set (map (fst \<circ> snd) regs)"
  shows "emit_pairs ord (registered regs) label = Inr (expected_pairs ord regs label)"
proof -
  let ?h = "registered regs"
  have L: "set (ord (listeners ?h label)) = listeners ?h label"
    and G: "set (ord (generic_listeners ?h)) = generic_listeners ?h"
    using assms(1) finite_listeners_registered [of regs label]
      finite_generic_listeners_registered [of regs]
    by (simp_all add: enumerates_def)
  have "\<forall>l \<in> set (ord (listeners ?h label)). listener_priorities ?h (label, l) \<noteq> None"
    unfolding L using priorities_registered [of regs label] by (auto simp: listeners_registered)
  then have 1: "prioritised (listener_priorities ?h) label (ord (listeners ?h label)) =
      Inr (map (\<lambda>l. (the (listener_priorities ?h (label, l)), l)) (ord (listeners ?h label)))"
    by (rule prioritised_total)
  have "\<forall>l \<in> set (ord (generic_listeners ?h)). listener_priorities ?h (None, l) \<noteq> None"
    unfolding G using priorities_registered [of regs None]
    by (auto simp: generic_listeners_registered_None [OF assms(2)])
  then have 2: "prioritised (listener_priorities ?h) None (ord (generic_listeners ?h)) =
      Inr (map (\<lambda>l. (the (listener_priorities ?h (None, l)), l)) (ord (generic_listeners ?h)))"
    by (rule prioritised_total)
  have "emit_pairs ord ?h label =
      Inr (map (\<lambda>l. (the (listener_priorities ?h (label, l)), l)) (ord (listeners ?h label))
           @ map (\<lambda>l. (the (listener_priorities ?h (None, l)), l)) (ord (generic_listeners ?h)))"
    by (simp add: emit_pairs_def 1 2)
  then show ?thesis
    by (simp add: expected_pairs_def listener_priorities_registered
        listeners_registered generic_listeners_registered_None [OF assms(2)])
qed

lemma emit_order_mset:
  assumes "emit_order ord h lab = Inr order"
  shows "mset order = mset (ord (listeners h lab)) + mset (ord (generic_listeners h))"
proof -
  from assms obtain ps1 ps2 where
    1: "prioritised (listener_priorities h) lab (ord (listeners h lab)) = Inr ps1"
    and 2: "prioritised (listener_priorities h) None (ord (generic_listeners h)) = Inr ps2"
    and order: "order = map snd (sort_key fst (ps1 @ ps2))"
    by (auto simp: emit_order_def emit_pairs_def split: sum.splits)
  have "mset order = mset (map snd ps1) + mset (map snd ps2)"
    unfolding order by simp
  then show ?thesis
    by (simp only: prioritised_snd [OF 1] prioritised_snd [OF 2])
qed

lemma distinct_map_sort_key: "distinct (map f (sort_key g xs)) = distinct (map f xs)"
  by (rule mset_eq_imp_distinct_iff) simp

subsection \<open>The calls of a dispatch\<close>

lemma invoke_listeners_Cons_Inr:
  "invoke_listeners code label a (l # ls) (lg, w) = Inr r \<Longrightarrow>
   \<exists>w2. code l label (length (heap w)) (w\<lparr>heap := heap w @ [heap w ! a]\<rparr>) = Inr w2
     \<and> invoke_listeners code label a ls
          (lg @ [\<lparr>callee = l, event = label, handed = length (heap w), content = heap w ! a\<rparr>],
           w2) = Inr r"
  by (cases "code l label (length (heap w)) (w\<lparr>heap := heap w @ [heap w ! a]\<rparr>)")
    (simp_all add: ndarray_copy_def ndarray_new_def)

lemma invoke_listeners_log:
  "invoke_listeners code label a ls (lg, w) = Inr (lg', w')
   \<Longrightarrow> \<exists>new. lg' = lg @ new \<and> map callee new = ls \<and> (\<forall>c \<in> set new. event c = label)"
proof (induction ls arbitrary: lg w)
  case Nil
  then show ?case by simp
next
  case (Cons l ls)
  let ?c = "\<lparr>callee = l, event = label, handed = length (heap w), content = heap w ! a\<rparr>"
  from invoke_listeners_Cons_Inr [OF Cons.prems] obtain w2 where
    rest: "invoke_listeners code label a ls (lg @ [?c], w2) = Inr (lg', w')"
    by (elim exE conjE)
  from Cons.IH [OF rest] obtain new where
    "lg' = (lg @ [?c]) @ new" "map callee new = ls" "\<forall>c \<in> set new. event c = label"
    by (elim exE conjE)
  then have "lg' = lg @ (?c # new) \<and> map callee (?c # new) = l # ls
      \<and> (\<forall>c \<in> set (?c # new). event c = label)"
    by simp
  then show ?case by (rule exI)
qed

text \<open>
  With listeners that keep to their own mask, a dispatch changes no array that existed
  before it, and every call is handed a new array, all different, each holding what the
  caller's mask held.
\<close>

lemma invoke_listeners_frame:
  assumes "respects_masks code"
  shows "a < length (heap w) \<Longrightarrow> invoke_listeners code label a ls (lg, w) = Inr (lg', w')
   \<Longrightarrow> length (heap w) \<le> length (heap w')
       \<and> (\<forall>b < length (heap w). heap w' ! b = heap w ! b)
       \<and> (\<exists>new. lg' = lg @ new
            \<and> (\<forall>c \<in> set new. content c = heap w ! a \<and> length (heap w) \<le> handed c)
            \<and> distinct (map handed new))"
proof (induction ls arbitrary: lg w)
  case Nil
  then show ?case by simp
next
  case (Cons l ls)
  let ?n = "length (heap w)"
  let ?w1 = "w\<lparr>heap := heap w @ [heap w ! a]\<rparr>"
  let ?c = "\<lparr>callee = l, event = label, handed = ?n, content = heap w ! a\<rparr>"
  from invoke_listeners_Cons_Inr [OF Cons.prems(2)] obtain w2 where
    w2: "code l label ?n ?w1 = Inr w2"
    and rest: "invoke_listeners code label a ls (lg @ [?c], w2) = Inr (lg', w')"
    by (elim exE conjE)
  from assms have "length (heap ?w1) \<le> length (heap w2)
      \<and> (\<forall>b < length (heap ?w1). b \<noteq> ?n \<longrightarrow> heap w2 ! b = heap ?w1 ! b)"
    unfolding respects_masks_def using w2 by (elim allE impE) assumption
  then have len: "length (heap ?w1) \<le> length (heap w2)"
    and keep: "\<forall>b < length (heap ?w1). b \<noteq> ?n \<longrightarrow> heap w2 ! b = heap ?w1 ! b"
    by simp_all
  have old: "heap w2 ! b = heap w ! b" if "b < ?n" for b
    using keep that by (simp add: nth_append)
  have a2: "a < length (heap w2)"
    using Cons.prems(1) len by simp
  from Cons.IH [OF a2 rest] obtain new where
    l': "length (heap w2) \<le> length (heap w')"
    and k': "\<forall>b < length (heap w2). heap w' ! b = heap w2 ! b"
    and lg': "lg' = (lg @ [?c]) @ new"
    and cs: "\<forall>c \<in> set new. content c = heap w2 ! a \<and> length (heap w2) \<le> handed c"
    and d: "distinct (map handed new)"
    by (elim exE conjE)
  have n2: "?n < length (heap w2)"
    using len by simp
  have "length (heap w) \<le> length (heap w')"
    using l' n2 by simp
  moreover have "\<forall>b < ?n. heap w' ! b = heap w ! b"
    using k' old n2 by simp
  moreover have "lg' = lg @ (?c # new)"
    using lg' by simp
  moreover have "\<forall>c \<in> set (?c # new). content c = heap w ! a \<and> ?n \<le> handed c"
    using cs old [OF Cons.prems(1)] n2 by auto
  moreover have "distinct (map handed (?c # new))"
    using d cs n2 by auto
  ultimately show ?case by (intro conjI exI [of _ "?c # new"])
qed

lemma emit_event_log:
  assumes "emit_order ord h label = Inr order"
    and "emit_event ord code h label a (lg, w) = Inr (lg', w')"
  shows "map callee lg' = map callee lg @ order"
proof -
  from assms have "invoke_listeners code label a order (lg, w) = Inr (lg', w')"
    by (simp add: emit_event_def)
  from invoke_listeners_log [OF this] show ?thesis
    by auto
qed

lemma emit_order_three:
  assumes "enumerates ord" "truthy lab" "distinct [l1, l2, l3]"
  shows "emit_order ord (registered [(l1, lab, 5), (l2, lab, 10), (l3, lab, 1)]) lab
           = Inr [l3, l1, l2]"
proof -
  let ?regs = "[(l1, lab, 5), (l2, lab, 10), (l3, lab, 1)]"
  let ?f = "\<lambda>l. (the (registered_priority ?regs lab l), l)"
  let ?xs = "ord {l1, l2, l3}"
  let ?zs = "[(1, l3), (5, l1), (10, l2)] :: (int \<times> 'a) list"
  from assms(2) have lab: "lab \<noteq> None" "lab \<noteq> Some []"
    by (cases lab; simp add: truthy_def)+
  have xs: "set ?xs = {l1, l2, l3}" "distinct ?xs"
    using assms(1) by (simp_all add: enumerates_def)
  have "set (ord {}) = {}"
    using assms(1) unfolding enumerates_def by blast
  then have nil: "ord {} = []"
    by simp
  have f: "?f l1 = (5, l1)" "?f l2 = (10, l2)" "?f l3 = (1, l3)"
    using assms(3) by (simp_all add: registered_priority_def)
  have L: "{l. truthy lab \<and> (\<exists>p. (l, lab, p) \<in> set ?regs)} = {l1, l2, l3}"
    using assms(2) by auto
  have G: "{l. \<exists>p. (l, None, p) \<in> set ?regs} = {}"
    using lab by auto
  have ps: "expected_pairs ord ?regs lab = map ?f ?xs"
    unfolding expected_pairs_def L G nil by simp
  let ?ys = "sort_key fst (map ?f ?xs)"
  have set_ys: "set ?ys = set ?zs"
    using xs(1) f by auto
  have "inj_on (fst \<circ> ?f) (set ?xs)"
    unfolding xs(1) using f assms(3) by (auto simp: inj_on_def)
  then have "distinct (map (fst \<circ> ?f) ?xs)"
    using xs(2) by (simp add: distinct_map)
  then have "distinct (map fst (map ?f ?xs))"
    by (simp add: comp_def)
  then have d_ys: "distinct (map fst ?ys)"
    by (simp only: distinct_map_sort_key)
  have "inj_on fst (set ?ys \<union> set ?zs)"
    unfolding set_ys by (auto simp: inj_on_def)
  moreover have "sorted (map fst ?ys)"
    by (rule sorted_sort_key)
  moreover have "sorted (map fst ?zs)" "distinct (map fst ?zs)"
    by simp_all
  ultimately have "?ys = ?zs"
    using d_ys set_ys by (intro map_sorted_distinct_set_unique)
  moreover have "Some [] \<notin> set (map (fst \<circ> snd) ?regs)"
    using lab by auto
  ultimately show ?thesis
    using emit_pairs_expected [OF assms(1), of ?regs lab] ps
    by (simp add: emit_order_def)
qed

lemma emit_order_regs3:
  "emit_order slot_order (registered regs3) (Some ''time_step'') = Inr [2, 0, 1]"
  by (simp add: regs3_def registered_def register_event_listener_def truthy_def
      EventHandler_init_def emit_order_def emit_pairs_def slot_order_def)

lemma emit_event_regs3:
  "emit_event slot_order clearing_code (registered regs3) (Some ''time_step'') 0 ([], world0) =
     Inr ([\<lparr>callee = 2, event = Some ''time_step'', handed = 1, content = [True, True]\<rparr>,
           \<lparr>callee = 0, event = Some ''time_step'', handed = 2, content = [True, True]\<rparr>,
           \<lparr>callee = 1, event = Some ''time_step'', handed = 3, content = [True, True]\<rparr>],
          world0\<lparr>heap := [[True, True], [True, True], [False, False], [True, True]]\<rparr>)"
  by (simp add: emit_event_def emit_order_regs3 ndarray_copy_def ndarray_new_def
      clearing_code_def world0_def)

text \<open>
  C5, as the code has it. Let the handler be built by registrations whose labels are
  \<^verbatim>\<open>None\<close> or non-empty strings, and let \<open>ord\<close> be the order in which sets
  are iterated. Then \<^verbatim>\<open>emit_event\<close> collects exactly the listeners registered
  under the label followed by the generic listeners, each set in its iteration order
  (\<^const>\<open>expected_pairs\<close>), and calls them sorted by ascending priority; listeners of
  equal priority keep the order in which they were collected (label before generic,
  then the sets' iteration order), which is not the order of registration. When every
  listener returns, the calls made are these, in this order. In particular three distinct
  listeners registered on one label at priorities 5, 10 and 1 are called in the order of
  the priorities 1, 5, 10, whatever the iteration order.
\<close>

theorem emit_event_priority_order:
  assumes "enumerates ord" and "Some [] \<notin> set (map (fst \<circ> snd) regs)"
  shows "emit_order ord (registered regs) label
           = Inr (map snd (sort_key fst (expected_pairs ord regs label)))
     \<and> sorted (map fst (sort_key fst (expected_pairs ord regs label)))
     \<and> (\<forall>k. filter (\<lambda>x. fst x = k) (sort_key fst (expected_pairs ord regs label))
              = filter (\<lambda>x. fst x = k) (expected_pairs ord regs label))
     \<and> (\<forall>code a lg w lg' w'.
           emit_event ord code (registered regs) label a (lg, w) = Inr (lg', w')
           \<longrightarrow> map callee lg'
               = map callee lg @ map snd (sort_key fst (expected_pairs ord regs label)))
     \<and> (truthy lab \<and> distinct [l1, l2, l3]
          \<longrightarrow> emit_order ord (registered [(l1, lab, 5), (l2, lab, 10), (l3, lab, 1)]) lab
              = Inr [l3, l1, l2])"
proof -
  have order: "emit_order ord (registered regs) label
           = Inr (map snd (sort_key fst (expected_pairs ord regs label)))"
    by (simp add: emit_order_def emit_pairs_expected [OF assms])
  moreover have "sorted (map fst (sort_key fst (expected_pairs ord regs label)))"
    by (rule sorted_sort_key)
  moreover have "\<forall>k. filter (\<lambda>x. fst x = k) (sort_key fst (expected_pairs ord regs label))
              = filter (\<lambda>x. fst x = k) (expected_pairs ord regs label)"
    by (simp add: sort_key_stable)
  moreover have "\<forall>code a lg w lg' w'.
           emit_event ord code (registered regs) label a (lg, w) = Inr (lg', w')
           \<longrightarrow> map callee lg'
               = map callee lg @ map snd (sort_key fst (expected_pairs ord regs label))"
    using emit_event_log [OF order] by (intro allI impI)
  moreover have "truthy lab \<and> distinct [l1, l2, l3]
          \<longrightarrow> emit_order ord (registered [(l1, lab, 5), (l2, lab, 10), (l3, lab, 1)]) lab
              = Inr [l3, l1, l2]"
    using emit_order_three [OF assms(1)] by (intro impI) (elim conjE)
  ultimately show ?thesis by (intro conjI)
qed

theorem emit_event_priority_order_witness:
  "enumerates (slot_order :: nat set \<Rightarrow> nat list)
   \<and> Some [] \<notin> set (map (fst \<circ> snd) regs3)
   \<and> emit_order slot_order (registered regs3) (Some ''time_step'') = Inr [2, 0, 1]
   \<and> map snd (sort_key fst (expected_pairs slot_order regs3 (Some ''time_step''))) = [2, 0, 1]
   \<and> emit_event slot_order clearing_code (registered regs3) (Some ''time_step'') 0 ([], world0) =
     Inr ([\<lparr>callee = 2, event = Some ''time_step'', handed = 1, content = [True, True]\<rparr>,
           \<lparr>callee = 0, event = Some ''time_step'', handed = 2, content = [True, True]\<rparr>,
           \<lparr>callee = 1, event = Some ''time_step'', handed = 3, content = [True, True]\<rparr>],
          world0\<lparr>heap := [[True, True], [True, True], [False, False], [True, True]]\<rparr>)
   \<and> truthy (Some ''time_step'') \<and> distinct [0, 1, 2 :: nat]
   \<and> regs3 = [(0, Some ''time_step'', 5), (1, Some ''time_step'', 10), (2, Some ''time_step'', 1)]"
proof -
  have 1: "enumerates (slot_order :: nat set \<Rightarrow> nat list)"
    by (rule enumerates_slot_order)
  have 2: "Some [] \<notin> set (map (fst \<circ> snd) regs3)"
    by (simp add: regs3_def)
  have 5: "truthy (Some ''time_step'')" "distinct [0, 1, 2 :: nat]"
    by (simp_all add: truthy_def)
  have 6: "regs3 = [(0, Some ''time_step'', 5), (1, Some ''time_step'', 10), (2, Some ''time_step'', 1)]"
    by (rule regs3_def)
  note inst = emit_event_priority_order [OF 1 2, where label = "Some ''time_step''"
      and lab = "Some ''time_step''" and ?l1.0 = 0 and ?l2.0 = 1 and ?l3.0 = 2]
  from inst [THEN conjunct2, THEN conjunct2, THEN conjunct2, THEN conjunct2, THEN mp,
      OF conjI [OF 5]]
  have 3: "emit_order slot_order (registered regs3) (Some ''time_step'') = Inr [2, 0, 1]"
    by (simp only: 6 [symmetric])
  from inst [THEN conjunct1] 3
  have 4: "map snd (sort_key fst (expected_pairs slot_order regs3 (Some ''time_step''))) = [2, 0, 1]"
    by simp
  from 1 2 3 4 emit_event_regs3 5 6 show ?thesis by (intro conjI)
qed

text \<open>
  C5 as stated fails on the order among equal priorities: a generic listener registered
  first (7) and a listener of \<^verbatim>\<open>time_step\<close> registered second (3), both at
  priority 10, are called as 3 then 7 on \<^verbatim>\<open>time_step\<close>, not in the order of
  their registration.
\<close>

theorem emit_event_registration_order_counterexample:
  "map fst regs_generic_first = [7, 3]
   \<and> emit_order slot_order (registered regs_generic_first) (Some ''time_step'') = Inr [3, 7]"
  by (simp add: regs_generic_first_def registered_def register_event_listener_def truthy_def
      EventHandler_init_def emit_order_def emit_pairs_def slot_order_def)

lemma register_event_listener_twice:
  "register_event_listener (register_event_listener h f lab p1) f lab p2
     = register_event_listener h f lab p2"
  by (simp add: register_event_listener_def Let_def)

text \<open>
  C10, as the code has it. Registering a listener a second time under the same label
  leaves the handler that the second registration alone would leave: the listener is in
  the label's set once (a set holds it once), and its priority is the one supplied last.
  An emit of that label then calls it once on account of the label, and once more when
  it is also among the generic listeners: \<^verbatim>\<open>emit_event\<close> appends the
  generic listeners to those of the label and removes no duplicate. (Under a label that
  is \<^verbatim>\<open>None\<close> or empty the registration is a generic one, and the count
  is one for the generic set, and one more if the handler holds the listener under that
  label.)
\<close>

theorem register_event_listener_idempotent:
  "register_event_listener (register_event_listener h f lab p1) f lab p2
     = register_event_listener h f lab p2
   \<and> listener_priorities
        (register_event_listener (register_event_listener h f lab p1) f lab p2) (lab, f)
       = Some p2
   \<and> (truthy lab \<longrightarrow>
        listeners (register_event_listener (register_event_listener h f lab p1) f lab p2) lab
          = insert f (listeners h lab))
   \<and> (enumerates ord \<and> finite (listeners h lab) \<and> finite (generic_listeners h)
        \<and> emit_order ord
             (register_event_listener (register_event_listener h f lab p1) f lab p2) lab
            = Inr order
      \<longrightarrow> count_list order f =
            (if truthy lab then 1 + (if f \<in> generic_listeners h then 1 else 0)
             else (if f \<in> listeners h lab then 1 else 0) + 1))"
proof -
  let ?h2 = "register_event_listener (register_event_listener h f lab p1) f lab p2"
  have eq: "?h2 = register_event_listener h f lab p2"
    by (rule register_event_listener_twice)
  have pr: "listener_priorities ?h2 (lab, f) = Some p2"
    by (simp add: register_event_listener_def Let_def)
  have ls: "listeners ?h2 lab = (if truthy lab then insert f (listeners h lab) else listeners h lab)"
    by (simp add: register_event_listener_def Let_def)
  have gs: "generic_listeners ?h2
      = (if truthy lab then generic_listeners h else insert f (generic_listeners h))"
    by (simp add: register_event_listener_def Let_def)
  have once: "count (mset (ord S)) f = (if f \<in> S then 1 else 0)"
    if "enumerates ord" "finite S" for S
  proof -
    from that have "set (ord S) = S" "distinct (ord S)"
      by (simp_all add: enumerates_def)
    then show ?thesis
      by (simp add: distinct_count_atmost_1)
  qed
  have "count_list order f =
            (if truthy lab then 1 + (if f \<in> generic_listeners h then 1 else 0)
             else (if f \<in> listeners h lab then 1 else 0) + 1)"
    if e: "enumerates ord" and fl: "finite (listeners h lab)"
      and fg: "finite (generic_listeners h)"
      and order: "emit_order ord ?h2 lab = Inr order"
  proof -
    have "count (mset order) f
        = count (mset (ord (listeners ?h2 lab))) f + count (mset (ord (generic_listeners ?h2))) f"
      using emit_order_mset [OF order] by simp
    also have "count (mset (ord (listeners ?h2 lab))) f = (if f \<in> listeners ?h2 lab then 1 else 0)"
      using fl by (intro once [OF e]) (simp add: ls)
    also have "count (mset (ord (generic_listeners ?h2))) f
        = (if f \<in> generic_listeners ?h2 then 1 else 0)"
      using fg by (intro once [OF e]) (simp add: gs)
    finally show ?thesis
      by (simp add: count_mset ls gs)
  qed
  with eq pr ls show ?thesis
    by (intro conjI impI) (simp, simp, simp, elim conjE, simp)
qed

theorem register_event_listener_idempotent_witness:
  "truthy (Some ''time_step'')
   \<and> enumerates (slot_order :: nat set \<Rightarrow> nat list)
   \<and> finite (listeners (EventHandler_init :: nat EventHandler) (Some ''time_step''))
   \<and> finite (generic_listeners (EventHandler_init :: nat EventHandler))
   \<and> (0::nat) \<notin> generic_listeners EventHandler_init
   \<and> emit_order slot_order
        (register_event_listener
           (register_event_listener (EventHandler_init :: nat EventHandler) 0 (Some ''time_step'') 5)
           0 (Some ''time_step'') 7)
        (Some ''time_step'') = Inr [0]
   \<and> count_list [0::nat] 0 = 1
   \<and> listeners
        (register_event_listener
           (register_event_listener (EventHandler_init :: nat EventHandler) 0 (Some ''time_step'') 5)
           0 (Some ''time_step'') 7)
        (Some ''time_step'') = {0}
   \<and> listener_priorities
        (register_event_listener
           (register_event_listener (EventHandler_init :: nat EventHandler) 0 (Some ''time_step'') 5)
           0 (Some ''time_step'') 7)
        (Some ''time_step'', 0) = Some 7"
proof -
  let ?h2 = "register_event_listener
           (register_event_listener (EventHandler_init :: nat EventHandler) 0 (Some ''time_step'') 5)
           0 (Some ''time_step'') 7"
  have 1: "emit_order slot_order ?h2 (Some ''time_step'') = Inr [0]"
    by (simp add: register_event_listener_def truthy_def EventHandler_init_def emit_order_def
        emit_pairs_def slot_order_def)
  have 3: "truthy (Some ''time_step'')"
    by (simp add: truthy_def)
  have 4: "finite (listeners (EventHandler_init :: nat EventHandler) (Some ''time_step''))"
    "finite (generic_listeners (EventHandler_init :: nat EventHandler))"
    "(0::nat) \<notin> generic_listeners EventHandler_init"
    by (simp_all add: EventHandler_init_def)
  note inst = register_event_listener_idempotent
      [of "EventHandler_init :: nat EventHandler" 0 "Some ''time_step''" 5 7 slot_order "[0]"]
  from inst have 2: "listener_priorities ?h2 (Some ''time_step'', 0) = Some 7"
    by (elim conjE)
  from inst [THEN conjunct2, THEN conjunct2, THEN conjunct1, THEN mp, OF 3] 4
  have 6: "listeners ?h2 (Some ''time_step'') = {0}"
    by (simp add: EventHandler_init_def)
  from inst [THEN conjunct2, THEN conjunct2, THEN conjunct2, THEN mp,
      OF conjI [OF enumerates_slot_order conjI [OF 4(1) conjI [OF 4(2) 1]]]] 3 4(3)
  have 5: "count_list [0::nat] 0 = 1"
    by simp
  show ?thesis
    using 1 2 3 4 5 6 enumerates_slot_order [where 'a = nat] by (intro conjI)
qed

text \<open>
  C10 as stated fails on the number of calls: listener 0 is a generic listener of the
  handler and is then registered twice on \<^verbatim>\<open>time_step\<close>. The label's set holds
  it once, and an emit of \<^verbatim>\<open>time_step\<close> calls it twice.
\<close>

theorem register_event_listener_generic_counterexample:
  "0 \<in> generic_listeners (register_event_listener (EventHandler_init :: nat EventHandler) 0 None 10)
   \<and> generic_and_labelled
       = register_event_listener
           (register_event_listener
              (register_event_listener EventHandler_init 0 None 10)
              0 (Some ''time_step'') 5)
           0 (Some ''time_step'') 7
   \<and> listeners generic_and_labelled (Some ''time_step'') = {0}
   \<and> emit_order slot_order generic_and_labelled (Some ''time_step'') = Inr [0, 0]
   \<and> emit_event slot_order clearing_code generic_and_labelled (Some ''time_step'') 0 ([], world0) =
     Inr ([\<lparr>callee = 0, event = Some ''time_step'', handed = 1, content = [True, True]\<rparr>,
           \<lparr>callee = 0, event = Some ''time_step'', handed = 2, content = [True, True]\<rparr>],
          world0\<lparr>heap := [[True, True], [False, False], [False, False]]\<rparr>)
   \<and> count_list [0, 0 :: nat] 0 = 2"
  by (simp add: generic_and_labelled_def register_event_listener_def truthy_def
      EventHandler_init_def emit_event_def emit_order_def emit_pairs_def slot_order_def
      ndarray_copy_def ndarray_new_def clearing_code_def world0_def)

text \<open>
  C6. Let every listener change, among the arrays that exist when it is called, only the
  mask it was handed. Then after an emit the caller's mask holds what it held before (as
  does every array that existed before), and every call of the emit was handed an array
  of its own, allocated for it, which held the content of the caller's mask at the moment
  of the call: a listener that changes its mask changes neither the caller's mask nor
  what any other listener is handed.
\<close>

theorem emit_event_mask_copies:
  assumes "respects_masks code" and "mask_addr < length (heap w)"
    and "emit_event ord code h label mask_addr (lg, w) = Inr (lg', w')"
  shows "heap w' ! mask_addr = heap w ! mask_addr
     \<and> (\<forall>b < length (heap w). heap w' ! b = heap w ! b)
     \<and> (\<exists>new. lg' = lg @ new
          \<and> (\<forall>c \<in> set new. content c = heap w ! mask_addr \<and> handed c \<noteq> mask_addr
                \<and> length (heap w) \<le> handed c)
          \<and> distinct (map handed new))"
proof -
  from assms(3) obtain order where
    "invoke_listeners code label mask_addr order (lg, w) = Inr (lg', w')"
    by (auto simp: emit_event_def split: sum.splits)
  from invoke_listeners_frame [OF assms(1,2) this] obtain new where
    keep: "\<forall>b < length (heap w). heap w' ! b = heap w ! b"
    and lg': "lg' = lg @ new"
    and cs: "\<forall>c \<in> set new. content c = heap w ! mask_addr \<and> length (heap w) \<le> handed c"
    and d: "distinct (map handed new)"
    by (elim exE conjE)
  have "heap w' ! mask_addr = heap w ! mask_addr"
    using keep assms(2) by simp
  moreover have "\<forall>c \<in> set new. content c = heap w ! mask_addr \<and> handed c \<noteq> mask_addr
                \<and> length (heap w) \<le> handed c"
    using cs assms(2) by auto
  ultimately show ?thesis
    using keep lg' d by (intro conjI exI [of _ new])
qed

lemma respects_masks_clearing_code: "respects_masks clearing_code"
  by (auto simp: respects_masks_def clearing_code_def split: if_splits)

lemma emit_two_listeners:
  "emit_event slot_order clearing_code two_listeners (Some ''time_step'') 0 ([], world0) =
     Inr ([\<lparr>callee = 0, event = Some ''time_step'', handed = 1, content = [True, True]\<rparr>,
           \<lparr>callee = 1, event = Some ''time_step'', handed = 2, content = [True, True]\<rparr>],
          world0\<lparr>heap := [[True, True], [False, False], [True, True]]\<rparr>)"
  by (simp add: two_listeners_def registered_def register_event_listener_def truthy_def
      EventHandler_init_def emit_event_def emit_order_def emit_pairs_def slot_order_def
      ndarray_copy_def ndarray_new_def clearing_code_def world0_def)

theorem emit_event_mask_copies_witness:
  "respects_masks clearing_code \<and> 0 < length (heap world0)
   \<and> emit_event slot_order clearing_code two_listeners (Some ''time_step'') 0 ([], world0) =
     Inr ([\<lparr>callee = 0, event = Some ''time_step'', handed = 1, content = [True, True]\<rparr>,
           \<lparr>callee = 1, event = Some ''time_step'', handed = 2, content = [True, True]\<rparr>],
          world0\<lparr>heap := [[True, True], [False, False], [True, True]]\<rparr>)
   \<and> heap (world0\<lparr>heap := [[True, True], [False, False], [True, True]]\<rparr>) ! 0 = heap world0 ! 0"
proof -
  have "0 < length (heap world0)"
    by (simp add: world0_def)
  from emit_event_mask_copies [OF respects_masks_clearing_code this emit_two_listeners]
  show ?thesis
    using respects_masks_clearing_code emit_two_listeners by (simp add: world0_def)
qed

section \<open>Properties of the rate pipeline\<close>

lemma foldl_incidence_mediation:
  "foldl (\<lambda>rates m. incidence_rates m pop rates label) z
     (map (\<lambda>m. m\<lparr>incidence_mediation_factors := f m\<rparr>) ms)
   = foldl (\<lambda>rates m. incidence_rates m pop rates label) z ms"
  by (induction ms arbitrary: z) simp_all

lemma incidence_rates_concrete:
  "incidence_rates BaseSimulationModule_init = (\<lambda>pop rates label. rates)"
  "incidence_rates module_mediating = (\<lambda>pop rates label. rates)"
  "incidence_rates module_additive pop rates ''heart_attack'' = map (\<lambda>r. r + 0.2) rates"
  by (simp_all add: BaseSimulationModule_init_def module_mediating_def module_additive_def
      SimulationModule_init_def register_event_listener_def Let_def)

text \<open>
  C2, as the code has it. The per-step incidence rate is the yearly-to-step conversion of
  the frame obtained from a frame of zeros by applying every module's
  \<^verbatim>\<open>incidence_rates\<close> in module order, whatever each of them does (add or
  multiply); nothing else is applied. The mediation factors that modules declare do not
  enter: changing them changes no rate. In particular, with a single additive annual rate
  0.2 and a single declared mediation factor 0.3 on that cause, the step rate of every
  row is \<open>from_yearly_rate 0.2\<close>.
\<close>

theorem Simulation_incidence_rates_pipeline:
  "Simulation_incidence_rates s pop label
     = map (\<lambda>rate. from_yearly_rate rate (last_time_step s))
         (foldl (\<lambda>rates m. incidence_rates m pop rates label)
            (replicate (length pop) 0) (ordered_modules s))
   \<and> Simulation_incidence_rates
        (s\<lparr>ordered_modules :=
             map (\<lambda>m. m\<lparr>incidence_mediation_factors := f m\<rparr>) (ordered_modules s)\<rparr>) pop label
       = Simulation_incidence_rates s pop label
   \<and> (ordered_modules s = [BaseSimulationModule_init, module_additive, module_mediating]
        \<longrightarrow> Simulation_incidence_rates s pop ''heart_attack''
            = replicate (length pop) (from_yearly_rate 0.2 (last_time_step s)))"
proof -
  have "Simulation_incidence_rates
        (s\<lparr>ordered_modules :=
             map (\<lambda>m. m\<lparr>incidence_mediation_factors := f m\<rparr>) (ordered_modules s)\<rparr>) pop label
       = Simulation_incidence_rates s pop label"
    by (simp add: Simulation_incidence_rates_def foldl_incidence_mediation)
  moreover have "Simulation_incidence_rates s pop ''heart_attack''
            = replicate (length pop) (from_yearly_rate 0.2 (last_time_step s))"
    if "ordered_modules s = [BaseSimulationModule_init, module_additive, module_mediating]"
    using that by (simp add: Simulation_incidence_rates_def incidence_rates_concrete)
  ultimately show ?thesis
    by (simp add: Simulation_incidence_rates_def)
qed

theorem Simulation_incidence_rates_pipeline_witness:
  "ordered_modules simulation_mediation
     = [BaseSimulationModule_init, module_additive, module_mediating]
   \<and> Simulation_incidence_rates simulation_mediation (population simulation_mediation)
        ''heart_attack''
       = [from_yearly_rate 0.2 (timedelta_half_days 730)]
   \<and> from_yearly_rate 0.2 (timedelta_half_days 730) = 0.2"
proof -
  have 1: "ordered_modules simulation_mediation
     = [BaseSimulationModule_init, module_additive, module_mediating]"
    by (simp add: simulation_mediation_def)
  from Simulation_incidence_rates_pipeline [THEN conjunct2, THEN conjunct2, THEN mp, OF 1]
  have "Simulation_incidence_rates simulation_mediation (population simulation_mediation)
        ''heart_attack''
       = replicate (length (population simulation_mediation))
           (from_yearly_rate 0.2 (last_time_step simulation_mediation))" .
  then have 2: "Simulation_incidence_rates simulation_mediation
        (population simulation_mediation) ''heart_attack''
       = [from_yearly_rate 0.2 (timedelta_half_days 730)]"
    by (simp add: simulation_mediation_def)
  have 3: "from_yearly_rate 0.2 (timedelta_half_days 730) = 0.2"
    by (simp add: from_yearly_rate_def total_seconds_def timedelta_half_days_def)
  from 1 2 3 show ?thesis by (intro conjI)
qed

text \<open>
  C2 as stated fails: module U adds the annual rate 0.2 for
  \<^verbatim>\<open>heart_attack\<close>, module V declares the mediation factor 0.3 for it, the time
  step is 365 days. The step rate is 0.2; the claim's
  \<open>from_yearly_rate (0.2 * (1 - 0.3))\<close> is 0.14.
\<close>

theorem Simulation_incidence_rates_mediation_counterexample:
  "incidence_mediation_factors module_mediating ''heart_attack'' = Some 0.3
   \<and> Simulation_incidence_rates simulation_mediation (population simulation_mediation)
        ''heart_attack'' = [0.2]
   \<and> from_yearly_rate (0.2 * (1 - 0.3)) (last_time_step simulation_mediation) = 0.14"
  by (simp add: Simulation_incidence_rates_def simulation_mediation_def module_additive_def
      module_mediating_def BaseSimulationModule_init_def SimulationModule_init_def
      register_event_listener_def from_yearly_rate_def total_seconds_def
      timedelta_half_days_def Let_def)

section \<open>Properties of the base module\<close>

lemma astype_int_floor: "0 \<le> x \<Longrightarrow> x < 2 ^ 63 \<Longrightarrow> astype_int x = \<lfloor>x\<rfloor>"
proof -
  assume x: "0 \<le> x" "x < 2 ^ 63"
  then have "0 \<le> \<lfloor>x\<rfloor>" "\<lfloor>x\<rfloor> < 2 ^ 63"
    by (simp_all add: floor_less_iff)
  with x(1) show ?thesis
    by (simp add: astype_int_def)
qed

text \<open>
  C7, as the code has it. Let \<^verbatim>\<open>advance_age\<close> be called with a mask that is
  as long as the population and true on every living simulant (the \<^verbatim>\<open>time_step\<close>
  mask of the step loop is true everywhere). Then it returns, and the fractional age of
  every living simulant is the float64 sum of what it was and the float64 quotient
  \<^verbatim>\<open>last_time_step.days / 365.0\<close>. That sum differs from the exact one by no
  more than the rounding of the two operations, a relative error of \<open>2 ^ - 53\<close> each:
  the fractional age grows by \<^verbatim>\<open>last_time_step.days / 365\<close> up to rounding,
  not exactly. And \<^verbatim>\<open>age\<close> is the floor of \<^verbatim>\<open>fractional_age\<close>
  for every simulant whose fractional age is then at least 0 and below \<open>2 ^ 63\<close>,
  where the conversion to int64 is the floor.
\<close>

theorem advance_age_step:
  assumes "length (heap w ! mask_addr) = length (population (sim w))"
    and "\<forall>i < length (population (sim w)).
           alive (population (sim w) ! i) \<longrightarrow> heap w ! mask_addr ! i"
  shows "\<exists>w'. advance_age label mask_addr w = Inr w'
     \<and> length (population (sim w')) = length (population (sim w))
     \<and> (\<forall>i < length (population (sim w)).
          (alive (population (sim w) ! i) \<longrightarrow>
             fractional_age (population (sim w') ! i)
               = float64 (fractional_age (population (sim w) ! i)
                          + float64 (real_of_int (days (last_time_step (sim w))) / 365))
             \<and> \<bar>fractional_age (population (sim w') ! i)
                  - (fractional_age (population (sim w) ! i)
                     + real_of_int (days (last_time_step (sim w))) / 365)\<bar>
               \<le> (\<bar>fractional_age (population (sim w) ! i)
                     + float64 (real_of_int (days (last_time_step (sim w))) / 365)\<bar>
                    + \<bar>real_of_int (days (last_time_step (sim w))) / 365\<bar>) / 2 ^ 53
                   + 1 / 2 ^ 1074)
          \<and> (0 \<le> fractional_age (population (sim w') ! i)
                \<and> fractional_age (population (sim w') ! i) < 2 ^ 63
              \<longrightarrow> age (population (sim w') ! i) = \<lfloor>fractional_age (population (sim w') ! i)\<rfloor>)
          \<and> alive (population (sim w') ! i) = alive (population (sim w) ! i))"
proof -
  let ?pop = "population (sim w)"
  let ?m = "heap w ! mask_addr"
  let ?d = "real_of_int (days (last_time_step (sim w))) / 365"
  let ?grow = "\<lambda>r b. if b then r\<lparr>fractional_age := float64 (fractional_age r + float64 ?d)\<rparr> else r"
  let ?aged = "map2 ?grow ?pop ?m"
  let ?pop' = "map (\<lambda>r. r\<lparr>age := astype_int (fractional_age r)\<rparr>) ?aged"
  let ?w' = "w\<lparr>sim := (sim w)\<lparr>population := ?pop'\<rparr>\<rparr>"
  have run: "advance_age label mask_addr w = Inr ?w'"
    using assms(1) by (simp add: advance_age_def Let_def)
  have len: "length ?aged = length ?pop"
    using assms(1) by simp
  have row: "(alive (?pop ! i) \<longrightarrow>
        fractional_age (?pop' ! i) = float64 (fractional_age (?pop ! i) + float64 ?d)
        \<and> \<bar>fractional_age (?pop' ! i) - (fractional_age (?pop ! i) + ?d)\<bar>
            \<le> (\<bar>fractional_age (?pop ! i) + float64 ?d\<bar> + \<bar>?d\<bar>) / 2 ^ 53 + 1 / 2 ^ 1074)
      \<and> (0 \<le> fractional_age (?pop' ! i) \<and> fractional_age (?pop' ! i) < 2 ^ 63
          \<longrightarrow> age (?pop' ! i) = \<lfloor>fractional_age (?pop' ! i)\<rfloor>)
      \<and> alive (?pop' ! i) = alive (?pop ! i)" if i: "i < length ?pop" for i
  proof -
    have aged: "?aged ! i = ?grow (?pop ! i) (?m ! i)"
      using i assms(1) by simp
    have new: "?pop' ! i = (?aged ! i)\<lparr>age := astype_int (fractional_age (?aged ! i))\<rparr>"
      using i len by simp
    have "fractional_age (?pop' ! i) = float64 (fractional_age (?pop ! i) + float64 ?d)"
      if "alive (?pop ! i)"
      unfolding new aged using that assms(2) i by simp
    moreover have "age (?pop' ! i) = \<lfloor>fractional_age (?pop' ! i)\<rfloor>"
      if "0 \<le> fractional_age (?pop' ! i)" "fractional_age (?pop' ! i) < 2 ^ 63"
      using that unfolding new by (simp add: astype_int_floor)
    moreover have "alive (?pop' ! i) = alive (?pop ! i)"
      unfolding new aged by simp
    ultimately show ?thesis
      using float64_sum_error [of "fractional_age (?pop ! i)" ?d] by simp
  qed
  have sim': "population (sim ?w') = ?pop'"
    by simp
  have "length (population (sim ?w')) = length ?pop"
    using len by simp
  moreover have "\<forall>i < length ?pop.
      (alive (?pop ! i) \<longrightarrow>
        fractional_age (population (sim ?w') ! i)
          = float64 (fractional_age (?pop ! i) + float64 ?d)
        \<and> \<bar>fractional_age (population (sim ?w') ! i) - (fractional_age (?pop ! i) + ?d)\<bar>
            \<le> (\<bar>fractional_age (?pop ! i) + float64 ?d\<bar> + \<bar>?d\<bar>) / 2 ^ 53 + 1 / 2 ^ 1074)
      \<and> (0 \<le> fractional_age (population (sim ?w') ! i)
            \<and> fractional_age (population (sim ?w') ! i) < 2 ^ 63
          \<longrightarrow> age (population (sim ?w') ! i) = \<lfloor>fractional_age (population (sim ?w') ! i)\<rfloor>)
      \<and> alive (population (sim ?w') ! i) = alive (?pop ! i)"
    unfolding sim' by (intro allI impI row)
  ultimately show ?thesis
    using run by (intro exI [of _ ?w'] conjI)
qed

lemma advance_age_world_aging:
  "advance_age (Some ''time_step'') 0 world_aging =
     Inr (world_aging\<lparr>sim := (sim world_aging)\<lparr>population :=
       [\<lparr>age = 40, fractional_age = 713929467898389 / 2 ^ 44, sex = ''Female'', alive = True,
         year = 2000\<rparr>,
        \<lparr>age = 81, fractional_age = 1426413002697237 / 2 ^ 44, sex = ''Male'', alive = False,
         year = 2000\<rparr>]\<rparr>\<rparr>)"
proof -
  have d: "days (timedelta_half_days 61) = 30"
    by (simp add: timedelta_half_days_def days_def)
  show ?thesis
    by (simp add: advance_age_def world_aging_def Simulation_init_def Let_def d float64_30_days
        float64_40_5_30_days float64_81_30_days astype_int_def)
qed

lemma advance_age_world_rounding:
  "advance_age (Some ''time_step'') 0 world_rounding =
     Inr (world_rounding\<lparr>sim := (sim world_rounding)\<lparr>population :=
       [\<lparr>age = 40, fractional_age = 40, sex = ''Female'', alive = True, year = 2000\<rparr>,
        \<lparr>age = - (2 ^ 63), fractional_age = 10 ^ 19, sex = ''Male'', alive = True,
         year = 2000\<rparr>]\<rparr>\<rparr>)"
proof -
  have d: "days (timedelta_half_days 2) = 1"
    by (simp add: timedelta_half_days_def days_def)
  show ?thesis
    by (simp add: advance_age_def world_rounding_def Simulation_init_def Let_def d float64_day
        float64_short_of_40 float64_10_19 astype_int_def)
qed

theorem advance_age_step_witness:
  "length (heap world_aging ! 0) = length (population (sim world_aging))
   \<and> days (last_time_step (sim world_aging)) = 30
   \<and> alive (population (sim world_aging) ! 0)
   \<and> fractional_age (population (sim world_aging) ! 0) = 40.5
   \<and> float64 (30 / 365) = 740317746965013 / 2 ^ 53
   \<and> (\<exists>w'. advance_age (Some ''time_step'') 0 world_aging = Inr w'
        \<and> fractional_age (population (sim w') ! 0) = 713929467898389 / 2 ^ 44
        \<and> age (population (sim w') ! 0) = 40)"
proof -
  have 1: "length (heap world_aging ! 0) = length (population (sim world_aging))"
    by (simp add: world_aging_def)
  have 2: "\<forall>i < length (population (sim world_aging)).
      alive (population (sim world_aging) ! i) \<longrightarrow> heap world_aging ! 0 ! i"
    by (simp add: world_aging_def less_Suc_eq)
  have 5: "days (last_time_step (sim world_aging)) = 30"
    by (simp add: world_aging_def timedelta_half_days_def days_def)
  have 6: "0 < length (population (sim world_aging))"
    "alive (population (sim world_aging) ! 0)"
    "fractional_age (population (sim world_aging) ! 0) = 40.5"
    by (simp_all add: world_aging_def)
  have 7: "float64 (30 / 365) = 740317746965013 / 2 ^ 53"
    using float64_30_days by simp
  from advance_age_step [OF 1 2, of "Some ''time_step''"] obtain w' where
    run: "advance_age (Some ''time_step'') 0 world_aging = Inr w'"
    and rows: "\<forall>i < length (population (sim world_aging)).
          (alive (population (sim world_aging) ! i) \<longrightarrow>
             fractional_age (population (sim w') ! i)
               = float64 (fractional_age (population (sim world_aging) ! i)
                          + float64 (real_of_int (days (last_time_step (sim world_aging))) / 365))
             \<and> \<bar>fractional_age (population (sim w') ! i)
                  - (fractional_age (population (sim world_aging) ! i)
                     + real_of_int (days (last_time_step (sim world_aging))) / 365)\<bar>
               \<le> (\<bar>fractional_age (population (sim world_aging) ! i)
                     + float64 (real_of_int (days (last_time_step (sim world_aging))) / 365)\<bar>
                    + \<bar>real_of_int (days (last_time_step (sim world_aging))) / 365\<bar>) / 2 ^ 53
                   + 1 / 2 ^ 1074)
          \<and> (0 \<le> fractional_age (population (sim w') ! i)
                \<and> fractional_age (population (sim w') ! i) < 2 ^ 63
              \<longrightarrow> age (population (sim w') ! i) = \<lfloor>fractional_age (population (sim w') ! i)\<rfloor>)
          \<and> alive (population (sim w') ! i) = alive (population (sim world_aging) ! i)"
    by (elim exE conjE)
  from rows 6(1) have row: "(alive (population (sim world_aging) ! 0) \<longrightarrow>
             fractional_age (population (sim w') ! 0)
               = float64 (fractional_age (population (sim world_aging) ! 0)
                          + float64 (real_of_int (days (last_time_step (sim world_aging))) / 365)))
          \<and> (0 \<le> fractional_age (population (sim w') ! 0)
                \<and> fractional_age (population (sim w') ! 0) < 2 ^ 63
              \<longrightarrow> age (population (sim w') ! 0) = \<lfloor>fractional_age (population (sim w') ! 0)\<rfloor>)"
    by simp
  from row 6 5 have f: "fractional_age (population (sim w') ! 0) = 713929467898389 / 2 ^ 44"
    by (simp add: float64_30_days float64_40_5_30_days)
  with row have "age (population (sim w') ! 0) = \<lfloor>713929467898389 / 2 ^ 44 :: real\<rfloor>"
    by simp
  then have a: "age (population (sim w') ! 0) = 40"
    by simp
  from run f a have "\<exists>w'. advance_age (Some ''time_step'') 0 world_aging = Inr w'
        \<and> fractional_age (population (sim w') ! 0) = 713929467898389 / 2 ^ 44
        \<and> age (population (sim w') ! 0) = 40"
    by (intro exI [of _ w'] conjI)
  with 1 5 6(2,3) 7 show ?thesis by (intro conjI)
qed

text \<open>
  C7 as stated fails. With a time step of one day, a living simulant whose fractional age
  is the double 39.9972602739726 gets the fractional age 40: it has grown by
  \<open>40 - 2814556976026621 / 2 ^ 46\<close>, which is not 1 / 365 (nor the double nearest
  to it), and the exact sum is still below 40. A living simulant whose fractional age is
  \<open>10 ^ 19\<close> keeps that fractional age, the step being less than half the distance
  to the next double, and its \<^verbatim>\<open>age\<close> is the smallest int64, not the
  floor.
\<close>

theorem advance_age_rounding_counterexample:
  "advance_age (Some ''time_step'') 0 world_rounding =
     Inr (world_rounding\<lparr>sim := (sim world_rounding)\<lparr>population :=
       [\<lparr>age = 40, fractional_age = 40, sex = ''Female'', alive = True, year = 2000\<rparr>,
        \<lparr>age = - (2 ^ 63), fractional_age = 10 ^ 19, sex = ''Male'', alive = True,
         year = 2000\<rparr>]\<rparr>\<rparr>)
   \<and> heap world_rounding ! 0 = [True, True]
   \<and> days (last_time_step (sim world_rounding)) = 1
   \<and> map alive (population (sim world_rounding)) = [True, True]
   \<and> map fractional_age (population (sim world_rounding)) = [2814556976026621 / 2 ^ 46, 10 ^ 19]
   \<and> (40 :: real) - 2814556976026621 / 2 ^ 46 \<noteq> 1 / 365
   \<and> (40 :: real) - 2814556976026621 / 2 ^ 46 \<noteq> float64 (1 / 365)
   \<and> \<lfloor>2814556976026621 / 2 ^ 46 + 1 / 365 :: real\<rfloor> = 39
   \<and> \<lfloor>10 ^ 19 :: real\<rfloor> \<noteq> - (2 ^ 63)"
proof -
  have "days (last_time_step (sim world_rounding)) = 1"
    by (simp add: world_rounding_def timedelta_half_days_def days_def)
  moreover have "heap world_rounding ! 0 = [True, True]"
    "map alive (population (sim world_rounding)) = [True, True]"
    "map fractional_age (population (sim world_rounding)) = [2814556976026621 / 2 ^ 46, 10 ^ 19]"
    by (simp_all add: world_rounding_def)
  moreover have "(40 :: real) - 2814556976026621 / 2 ^ 46 \<noteq> 1 / 365"
    "(40 :: real) - 2814556976026621 / 2 ^ 46 \<noteq> float64 (1 / 365)"
    "\<lfloor>2814556976026621 / 2 ^ 46 + 1 / 365 :: real\<rfloor> = 39"
    "\<lfloor>10 ^ 19 :: real\<rfloor> \<noteq> - (2 ^ 63)"
    by (simp_all add: float64_day)
  ultimately show ?thesis
    using advance_age_world_rounding by (intro conjI)
qed

section \<open>Properties of the step loop\<close>

lemma emit_event_events:
  assumes "emit_event ord code h label a (lg, w) = Inr (lg', w')"
  shows "\<exists>new. lg' = lg @ new \<and> (\<forall>c \<in> set new. event c = label)"
proof -
  from assms obtain order where
    "invoke_listeners code label a order (lg, w) = Inr (lg', w')"
    by (auto simp: emit_event_def split: sum.splits)
  from invoke_listeners_log [OF this] obtain new where
    "lg' = lg @ new" "\<forall>c \<in> set new. event c = label"
    by (elim exE conjE)
  then show ?thesis by (intro exI [of _ new] conjI)
qed

lemma emit_modules_events:
  "emit_modules ord code label a ms (lg, w) = Inr (lg', w')
   \<Longrightarrow> \<exists>new. lg' = lg @ new \<and> (\<forall>c \<in> set new. event c = label)"
proof (induction ms arbitrary: lg w)
  case Nil
  then show ?case by simp
next
  case (Cons m ms)
  from Cons.prems obtain lg1 w1 where
    first: "emit_event ord code m label a (lg, w) = Inr (lg1, w1)"
    and rest: "emit_modules ord code label a ms (lg1, w1) = Inr (lg', w')"
    by (auto split: sum.splits)
  from emit_event_events [OF first] obtain new1 where
    1: "lg1 = lg @ new1" "\<forall>c \<in> set new1. event c = label"
    by (elim exE conjE)
  from Cons.IH [OF rest] obtain new2 where
    2: "lg' = lg1 @ new2" "\<forall>c \<in> set new2. event c = label"
    by (elim exE conjE)
  from 1 2 have "lg' = lg @ (new1 @ new2) \<and> (\<forall>c \<in> set (new1 @ new2). event c = label)"
    by auto
  then show ?case by (rule exI)
qed

lemma foldl_plus_sum_list: "foldl (\<lambda>y m. y + f m) z ms = z + sum_list (map f ms)" for z :: real
  by (induction ms arbitrary: z) simp_all

lemma Simulation_years_lived_with_disability_sum:
  "Simulation_years_lived_with_disability s =
     sum_list (map (\<lambda>m. years_lived_with_disability m (filter alive (population s)))
       (ordered_modules s))"
  by (simp add: Simulation_years_lived_with_disability_def foldl_plus_sum_list)

text \<open>
  C1, as the code has it. While \<^verbatim>\<open>current_time <= end_time\<close> the loop runs one
  more iteration and goes on from what it leaves (or stops with its exception). An
  iteration that returns has done this, in order: set the \<^verbatim>\<open>year\<close> of every row
  to the year of the clock; emitted \<^verbatim>\<open>time_step\<close> on a new all-true mask, one
  entry per row, which is the one event the loop emits: every call that this dispatch
  makes is a call of a listener of \<^verbatim>\<open>time_step\<close>, and the loop emits no
  \<^verbatim>\<open>time_step__continuous\<close> (what the listeners called emit in turn, as
  \<^verbatim>\<open>mortality_handler\<close> emits \<^verbatim>\<open>deaths\<close>, is part of their calls);
  updated the YLD of the clock's year from the sum of the modules'
  \<^verbatim>\<open>years_lived_with_disability\<close> over the living rows, so that a year with
  nothing stored gets that sum, and left the YLD of every other year and everything else
  as the dispatch left it; and advanced the clock by the time step. When the advanced
  clock would leave the years 1 to 9999 the iteration raises \<^verbatim>\<open>OverflowError\<close>
  instead.
\<close>

theorem run_iteration_steps:
  "(current_time (sim (snd st)) \<le> end_time \<longrightarrow>
      run_loop ord code end_time time_step st =
        (case run_iteration ord code time_step st of
           Inl e \<Rightarrow> Some (Inl e)
         | Inr st' \<Rightarrow> run_loop ord code end_time time_step st'))
   \<and> (run_iteration ord code time_step (lg, w) = Inr (lg', w') \<longrightarrow>
        (\<exists>w2 new.
           Simulation_emit_event ord code (Some ''time_step'') (length (heap w))
             (lg, w\<lparr>sim := (sim w)\<lparr>population :=
                      map (\<lambda>r. r\<lparr>year := dt_year (current_time (sim w))\<rparr>)
                        (population (sim w))\<rparr>,
                    heap := heap w @ [replicate (length (population (sim w))) True]\<rparr>)
             = Inr (lg', w2)
           \<and> lg' = lg @ new \<and> (\<forall>c \<in> set new. event c = Some ''time_step'')
           \<and> w'\<lparr>sim := (sim w')\<lparr>current_time := current_time (sim w2),
                                 yld_by_year := yld_by_year (sim w2)\<rparr>\<rparr> = w2
           \<and> (\<forall>y. y \<noteq> dt_year (current_time (sim w2))
                  \<longrightarrow> yld_by_year (sim w') y = yld_by_year (sim w2) y)
           \<and> (yld_by_year (sim w2) (dt_year (current_time (sim w2))) = 0 \<longrightarrow>
                yld_by_year (sim w') (dt_year (current_time (sim w2)))
                  = sum_list (map (\<lambda>m. years_lived_with_disability m
                                          (filter alive (population (sim w2))))
                                (ordered_modules (sim w2))))
           \<and> current_time (sim w') = current_time (sim w2) + time_step
           \<and> 0 \<le> current_time (sim w') \<and> current_time (sim w') < datetime_jan1 10000))
   \<and> (Simulation_emit_event ord code (Some ''time_step'') (length (heap w))
             (lg, w\<lparr>sim := (sim w)\<lparr>population :=
                      map (\<lambda>r. r\<lparr>year := dt_year (current_time (sim w))\<rparr>)
                        (population (sim w))\<rparr>,
                    heap := heap w @ [replicate (length (population (sim w))) True]\<rparr>)
             = Inr (lg2, w3)
        \<and> \<not> (0 \<le> current_time (sim w3) + time_step
               \<and> current_time (sim w3) + time_step < datetime_jan1 10000)
      \<longrightarrow> run_iteration ord code time_step (lg, w) = Inl OverflowError)"
proof -
  let ?w1 = "w\<lparr>sim := (sim w)\<lparr>population :=
                  map (\<lambda>r. r\<lparr>year := dt_year (current_time (sim w))\<rparr>) (population (sim w))\<rparr>,
                heap := heap w @ [replicate (length (population (sim w))) True]\<rparr>"
  let ?sum = "\<lambda>w2. sum_list (map (\<lambda>m. years_lived_with_disability m
                                          (filter alive (population (sim w2))))
                                (ordered_modules (sim w2)))"
  have loop: "current_time (sim (snd st)) \<le> end_time \<longrightarrow>
      run_loop ord code end_time time_step st =
        (case run_iteration ord code time_step st of
           Inl e \<Rightarrow> Some (Inl e)
         | Inr st' \<Rightarrow> run_loop ord code end_time time_step st')"
    by (subst run_loop.simps) simp
  have unfold: "run_iteration ord code time_step (lg, w) =
      (case Simulation_emit_event ord code (Some ''time_step'') (length (heap w)) (lg, ?w1) of
         Inl e \<Rightarrow> Inl e
       | Inr (lg2, w2) \<Rightarrow>
           if 0 \<le> current_time (sim w2) + time_step
              \<and> current_time (sim w2) + time_step < datetime_jan1 10000
           then Inr (lg2, w2\<lparr>sim := (sim w2)
                  \<lparr>current_time := current_time (sim w2) + time_step,
                   yld_by_year := (yld_by_year (sim w2))
                     (dt_year (current_time (sim w2)) := ?sum w2)\<rparr>\<rparr>)
           else Inl OverflowError)"
    by (simp add: run_iteration_def ndarray_new_def Let_def datetime_add_def
        Simulation_years_lived_with_disability_sum split: sum.splits prod.splits)
  have body: "\<exists>w2 new.
           Simulation_emit_event ord code (Some ''time_step'') (length (heap w)) (lg, ?w1)
             = Inr (lg', w2)
           \<and> lg' = lg @ new \<and> (\<forall>c \<in> set new. event c = Some ''time_step'')
           \<and> w'\<lparr>sim := (sim w')\<lparr>current_time := current_time (sim w2),
                                 yld_by_year := yld_by_year (sim w2)\<rparr>\<rparr> = w2
           \<and> (\<forall>y. y \<noteq> dt_year (current_time (sim w2))
                  \<longrightarrow> yld_by_year (sim w') y = yld_by_year (sim w2) y)
           \<and> (yld_by_year (sim w2) (dt_year (current_time (sim w2))) = 0 \<longrightarrow>
                yld_by_year (sim w') (dt_year (current_time (sim w2))) = ?sum w2)
           \<and> current_time (sim w') = current_time (sim w2) + time_step
           \<and> 0 \<le> current_time (sim w') \<and> current_time (sim w') < datetime_jan1 10000"
    if run: "run_iteration ord code time_step (lg, w) = Inr (lg', w')"
  proof -
    from run obtain w2 where
      emit: "Simulation_emit_event ord code (Some ''time_step'') (length (heap w)) (lg, ?w1)
               = Inr (lg', w2)"
      and range: "0 \<le> current_time (sim w2) + time_step"
        "current_time (sim w2) + time_step < datetime_jan1 10000"
      and w': "w' = w2\<lparr>sim := (sim w2)
                 \<lparr>current_time := current_time (sim w2) + time_step,
                  yld_by_year := (yld_by_year (sim w2))
                    (dt_year (current_time (sim w2)) := ?sum w2)\<rparr>\<rparr>"
      unfolding unfold by (auto split: sum.splits if_splits)
    from emit have "emit_modules ord code (Some ''time_step'') (length (heap w))
        (ordered_modules (sim ?w1)) (lg, ?w1) = Inr (lg', w2)"
      by (simp add: Simulation_emit_event_def)
    from emit_modules_events [OF this] obtain new where
      new: "lg' = lg @ new" "\<forall>c \<in> set new. event c = Some ''time_step''"
      by (elim exE conjE)
    have "w'\<lparr>sim := (sim w')\<lparr>current_time := current_time (sim w2),
                              yld_by_year := yld_by_year (sim w2)\<rparr>\<rparr> = w2"
      unfolding w' by simp
    moreover have "\<forall>y. y \<noteq> dt_year (current_time (sim w2))
                  \<longrightarrow> yld_by_year (sim w') y = yld_by_year (sim w2) y"
      unfolding w' by simp
    moreover have "yld_by_year (sim w2) (dt_year (current_time (sim w2))) = 0 \<longrightarrow>
                yld_by_year (sim w') (dt_year (current_time (sim w2))) = ?sum w2"
      unfolding w' by simp
    moreover have "current_time (sim w') = current_time (sim w2) + time_step"
      unfolding w' by simp
    ultimately show ?thesis
      using emit new range by (intro exI [of _ w2] exI [of _ new] conjI) simp_all
  qed
  have over: "run_iteration ord code time_step (lg, w) = Inl OverflowError"
    if "Simulation_emit_event ord code (Some ''time_step'') (length (heap w)) (lg, ?w1)
          = Inr (lg2, w3)"
      and "\<not> (0 \<le> current_time (sim w3) + time_step
               \<and> current_time (sim w3) + time_step < datetime_jan1 10000)"
    using that unfolding unfold by simp
  show ?thesis
  proof (intro conjI impI)
    show "run_loop ord code end_time time_step st =
        (case run_iteration ord code time_step st of
           Inl e \<Rightarrow> Some (Inl e)
         | Inr st' \<Rightarrow> run_loop ord code end_time time_step st')"
      if "current_time (sim (snd st)) \<le> end_time"
      using loop that by simp
  next
    assume "run_iteration ord code time_step (lg, w) = Inr (lg', w')"
    then show "\<exists>w2 new.
           Simulation_emit_event ord code (Some ''time_step'') (length (heap w)) (lg, ?w1)
             = Inr (lg', w2)
           \<and> lg' = lg @ new \<and> (\<forall>c \<in> set new. event c = Some ''time_step'')
           \<and> w'\<lparr>sim := (sim w')\<lparr>current_time := current_time (sim w2),
                                 yld_by_year := yld_by_year (sim w2)\<rparr>\<rparr> = w2
           \<and> (\<forall>y. y \<noteq> dt_year (current_time (sim w2))
                  \<longrightarrow> yld_by_year (sim w') y = yld_by_year (sim w2) y)
           \<and> (yld_by_year (sim w2) (dt_year (current_time (sim w2))) = 0 \<longrightarrow>
                yld_by_year (sim w') (dt_year (current_time (sim w2))) = ?sum w2)
           \<and> current_time (sim w') = current_time (sim w2) + time_step
           \<and> 0 \<le> current_time (sim w') \<and> current_time (sim w') < datetime_jan1 10000"
      by (rule body)
  next
    assume "Simulation_emit_event ord code (Some ''time_step'') (length (heap w)) (lg, ?w1)
          = Inr (lg2, w3)
        \<and> \<not> (0 \<le> current_time (sim w3) + time_step
               \<and> current_time (sim w3) + time_step < datetime_jan1 10000)"
    then show "run_iteration ord code time_step (lg, w) = Inl OverflowError"
      using over by (elim conjE)
  qed
qed

lemma dt_year_2000: "dt_year (datetime_jan1 2000) = 2000"
  by (simp add: dt_year_def datetime_jan1_def)

lemma module_C_yld: "years_lived_with_disability module_C = (\<lambda>pop. real (length pop))"
  by (simp add: module_C_def SimulationModule_init_def register_event_listener_def Let_def)

lemma base_yld: "years_lived_with_disability (BaseSimulationModule_loaded table) = (\<lambda>pop. 0)"
  by (simp add: BaseSimulationModule_loaded_def BaseSimulationModule_init_def
      SimulationModule_init_def register_event_listener_def Let_def)

lemma mortality_rates_2000:
  "mortality_rates (BaseSimulationModule_loaded mortality_2000) pop rates
     = Inr (map2 (\<lambda>rate r. rate + (if 90 \<le> age r then 14600 else 0)) rates pop)"
  "mortality_rates module_C = (\<lambda>pop rates. Inr rates)"
  by (simp_all add: BaseSimulationModule_loaded_def mortality_2000_def module_C_def
      SimulationModule_init_def register_event_listener_def Let_def)

lemma emit_order_base:
  "emit_order slot_order (BaseSimulationModule_loaded table) (Some ''time_step'') = Inr [0, 1]"
  "emit_order slot_order (BaseSimulationModule_loaded table) (Some ''deaths'') = Inr []"
  by (simp_all add: BaseSimulationModule_loaded_def BaseSimulationModule_init_def
      SimulationModule_init_def register_event_listener_def truthy_def emit_order_def
      emit_pairs_def slot_order_def Let_def)

lemma emit_order_C:
  "emit_order slot_order module_C (Some ''time_step'') = Inr [2]"
  "emit_order slot_order module_C (Some ''deaths'') = Inr [4]"
  by (simp_all add: module_C_def SimulationModule_init_def
      register_event_listener_def truthy_def emit_order_def emit_pairs_def slot_order_def Let_def)

text \<open>The listeners other than those of the base module do nothing, at every depth.\<close>

lemma code_at_base_body_idle:
  "1 < l \<Longrightarrow> code_at ord (base_body fexp draw life_table) depth l
     = (\<lambda>label mask_addr w. Inr w)"
  by (cases depth) (simp_all add: base_body_def)

lemma probability_2000:
  "rate_to_probability exp64 0 = 0" "rate_to_probability exp64 40 = 1"
  using rate_to_probability_one [OF exp_routine_exp64, of 40]
  by (simp_all add: rate_to_probability_def exp64_def)

text \<open>
  One iteration on \<open>world_2000\<close>, at every depth that allows one nested dispatch. The
  base module's listeners are called first: \<^verbatim>\<open>advance_age\<close>, then
  \<^verbatim>\<open>mortality_handler\<close>, which selects the simulant of 95 and emits
  \<^verbatim>\<open>deaths\<close>, whereupon the listener 4 of module C is called; then the listener
  2 of module C.
\<close>

lemma run_iteration_2000:
  "run_iteration slot_order (code_at slot_order body_2000 (Suc depth)) (timedelta_half_days 2)
     ([], world_2000) = Inr (log_2000, world_2000_after)"
  unfolding log_2000_def world_2000_after_def
  apply (simp add: run_iteration_def Simulation_emit_event_def emit_event_def emit_order_base
      emit_order_C ndarray_new_def ndarray_copy_def world_2000_def simulation_2000_def Let_def
      body_2000_def base_body_def datetime_add_def)
  apply (simp add: advance_age_def only_living_def mortality_handler_def mask_for_rate_def
      Simulation_mortality_rates_def mortality_rates_2000 from_yearly_rate_def total_seconds_def
      Simulation_emit_event_def emit_event_def emit_order_base emit_order_C
      ndarray_new_def ndarray_copy_def Let_def code_at_base_body_idle probability_2000
      Simulation_years_lived_with_disability_def module_C_yld base_yld dt_year_2000 days_def
      timedelta_half_days_def astype_int_def float64_day float64_40_day float64_95_day
      life_table_2000_def datetime_jan1_def datetime_add_def dt_year_def upt_rec)
  done

theorem run_iteration_steps_witness:
  "current_time (sim (snd ([] :: nat call list, world_2000))) \<le> datetime_jan1 2001
   \<and> run_iteration slot_order (code_at slot_order body_2000 250) (timedelta_half_days 2)
        ([], world_2000) = Inr (log_2000, world_2000_after)
   \<and> run_loop slot_order (code_at slot_order body_2000 250) (datetime_jan1 2001)
        (timedelta_half_days 2) ([], world_2000)
       = run_loop slot_order (code_at slot_order body_2000 250) (datetime_jan1 2001)
           (timedelta_half_days 2) (log_2000, world_2000_after)
   \<and> (\<exists>new. log_2000 = [] @ new \<and> (\<forall>c \<in> set new. event c = Some ''time_step''))
   \<and> yld_by_year (sim world_2000) 2000 = 0
   \<and> yld_by_year (sim world_2000_after) 2000 = 1
   \<and> current_time (sim world_2000_after) = datetime_jan1 2000 + timedelta_half_days 2"
proof -
  have 1: "current_time (sim (snd ([] :: nat call list, world_2000))) \<le> datetime_jan1 2001"
    by (simp add: world_2000_def simulation_2000_def datetime_jan1_def)
  have run: "run_iteration slot_order (code_at slot_order body_2000 250) (timedelta_half_days 2)
      ([], world_2000) = Inr (log_2000, world_2000_after)"
    using run_iteration_2000 [of 249] by simp
  note inst = run_iteration_steps [of "([], world_2000)" "datetime_jan1 2001" slot_order
      "code_at slot_order body_2000 250" "timedelta_half_days 2" "[]" world_2000 log_2000
      world_2000_after]
  from inst [THEN conjunct1, THEN mp, OF 1]
  have 2: "run_loop slot_order (code_at slot_order body_2000 250) (datetime_jan1 2001)
      (timedelta_half_days 2) ([], world_2000)
       = run_loop slot_order (code_at slot_order body_2000 250) (datetime_jan1 2001)
           (timedelta_half_days 2) (log_2000, world_2000_after)"
    by (simp add: run)
  from inst [THEN conjunct2, THEN conjunct1, THEN mp, OF run]
  have 3: "\<exists>new. log_2000 = [] @ new \<and> (\<forall>c \<in> set new. event c = Some ''time_step'')"
    by (elim exE conjE) (intro exI conjI)
  have 4: "yld_by_year (sim world_2000) 2000 = 0"
    "yld_by_year (sim world_2000_after) 2000 = 1"
    "current_time (sim world_2000_after) = datetime_jan1 2000 + timedelta_half_days 2"
    by (simp_all add: world_2000_def world_2000_after_def simulation_2000_def)
  from 1 run 2 3 4 show ?thesis by (intro conjI)
qed

text \<open>
  C1 as stated fails. Module C has a listener (3) registered on
  \<^verbatim>\<open>time_step__continuous\<close>. One iteration at 2000-01-01 calls the listeners 0,
  1 and 2 on \<^verbatim>\<open>time_step\<close> and, in the dispatch that listener 1 starts, the
  listener 4 on \<^verbatim>\<open>deaths\<close>; it never calls listener 3: no
  \<^verbatim>\<open>time_step__continuous\<close> is emitted.
\<close>

theorem run_iteration_continuous_counterexample:
  "3 \<in> listeners module_C (Some ''time_step__continuous'')
   \<and> run_iteration slot_order (code_at slot_order body_2000 250) (timedelta_half_days 2)
        ([], world_2000) = Inr (log_2000, world_2000_after)
   \<and> nested world_2000 = []
   \<and> map callee log_2000 = [0, 1, 2]
   \<and> map event log_2000 = [Some ''time_step'', Some ''time_step'', Some ''time_step'']
   \<and> map callee (nested world_2000_after) = [4]
   \<and> map event (nested world_2000_after) = [Some ''deaths'']"
proof -
  have "3 \<in> listeners module_C (Some ''time_step__continuous'')"
    by (simp add: module_C_def SimulationModule_init_def register_event_listener_def
        truthy_def Let_def)
  moreover have "run_iteration slot_order (code_at slot_order body_2000 250)
      (timedelta_half_days 2) ([], world_2000) = Inr (log_2000, world_2000_after)"
    using run_iteration_2000 [of 249] by simp
  moreover have "nested world_2000 = []"
    by (simp add: world_2000_def)
  moreover have "map callee log_2000 = [0, 1, 2]"
    "map event log_2000 = [Some ''time_step'', Some ''time_step'', Some ''time_step'']"
    by (simp_all add: log_2000_def)
  moreover have "map callee (nested world_2000_after) = [4]"
    "map event (nested world_2000_after) = [Some ''deaths'']"
    by (simp_all add: world_2000_after_def)
  ultimately show ?thesis
    by (intro conjI)
qed

section \<open>Properties of the interpolation\<close>

lemma call_loop_error: "call_loop I q gs res = Inl e \<Longrightarrow> e = KeyError"
  by (induction gs arbitrary: res) (auto split: if_splits option.splits)

lemma call_loop_missing:
  "(k, idx) \<in> set gs \<Longrightarrow> idx \<noteq> [] \<Longrightarrow> columns q \<noteq> [] \<Longrightarrow> interpolations I k = None
   \<Longrightarrow> \<exists>e. call_loop I q gs res = Inl e"
proof (induction gs arbitrary: res)
  case Nil
  then show ?case by simp
next
  case (Cons g gs)
  obtain k' idx' where g: "g = (k', idx')" by (cases g)
  show ?case
  proof (cases "(k, idx) = g")
    case True
    with Cons.prems g show ?thesis by simp
  next
    case False
    with Cons.prems have "(k, idx) \<in> set gs" by simp
    from Cons.IH [OF this Cons.prems(2,3,4)] show ?thesis
      unfolding g by (simp split: option.splits)
  qed
qed

text \<open>The keys of a grouping are the key tuples of the rows that have one.\<close>

lemma set_map_filter_conv: "set (List.map_filter f xs) = {y. \<exists>x \<in> set xs. f x = Some y}"
  by (induction xs) (auto simp: List.map_filter_def)

lemma groupby_keys:
  "(k \<in> fst ` set (groupby ks df)) = (Some k \<in> row_key ks ` set (rows df))"
  by (auto simp: groupby_def image_image set_map_filter_conv image_iff intro: sym)

lemma groupby_nonempty: "(k, idx) \<in> set (groupby ks df) \<Longrightarrow> idx \<noteq> []"
proof -
  assume g: "(k, idx) \<in> set (groupby ks df)"
  then have "k \<in> fst ` set (groupby ks df)"
    by force
  then have k: "Some k \<in> row_key ks ` set (rows df)"
    by (simp only: groupby_keys)
  from g have idx: "idx = filter (\<lambda>i. row_key ks (rows df ! i) = Some k) [0..<length (rows df)]"
    by (auto simp: groupby_def)
  from k obtain i where "i < length (rows df)" "row_key ks (rows df ! i) = Some k"
    by (auto simp: in_set_conv_nth)
  then have "i \<in> set idx"
    unfolding idx by simp
  then show ?thesis by auto
qed

lemma groupby_member:
  assumes "r \<in> set (rows df)" and "row_key ks r = Some k"
  shows "\<exists>idx. (k, idx) \<in> set (groupby ks df) \<and> idx \<noteq> []"
proof -
  from assms have "Some k \<in> row_key ks ` set (rows df)"
    by force
  then have "k \<in> fst ` set (groupby ks df)"
    by (simp only: groupby_keys)
  then obtain idx where "(k, idx) \<in> set (groupby ks df)"
    by auto
  with groupby_nonempty [OF this] show ?thesis by auto
qed

lemma groupby_no_key:
  "\<forall>r \<in> set (rows df). row_key ks r = None \<Longrightarrow> groupby ks df = []"
proof -
  assume "\<forall>r \<in> set (rows df). row_key ks r = None"
  then have "set (List.map_filter (row_key ks) (rows df)) = {}"
    by (auto simp: set_map_filter_conv)
  then show ?thesis
    by (simp add: groupby_def)
qed

lemma validate_parameters_columns:
  "validate_parameters df cats conts order = Inr (params, df', vcs) \<Longrightarrow> columns df' \<noteq> []"
  by (auto simp: validate_parameters_def Let_def split: if_splits sum.splits)

lemma Interpolation_init_partitions:
  assumes "Interpolation_init fit df cats conts order = Inr J" and "cats \<noteq> []"
  shows "key_columns J = cats"
    and "(interpolations J k = None) = (Some k \<notin> row_key cats ` set (rows (data J)))"
proof -
  from assms(1) obtain params df' vcs where
    v: "validate_parameters df cats conts order = Inr (params, df', vcs)"
    by (auto simp: Interpolation_init_def split: sum.splits)
  let ?tables = "filter (\<lambda>(key, idx). \<not> (idx = [] \<or> columns df' = [])) (sub_tables cats df')"
  let ?entry = "\<lambda>(key, idx).
      (key, map (\<lambda>value_column.
         (value_column,
          fit order (map (\<lambda>i. (map (rows df' ! i) params, (rows df' ! i) value_column)) idx)))
        vcs)"
  from assms(1) v have J: "key_columns J = cats" "data J = df'"
    "interpolations J = map_of (map ?entry ?tables)"
    by (auto simp: Interpolation_init_def Let_def split: if_splits)
  have cols: "columns df' \<noteq> []"
    using v by (rule validate_parameters_columns)
  have "set ?tables = set (groupby cats df')"
    using cols assms(2) groupby_nonempty [of _ _ cats df']
    by (auto simp: sub_tables_def)
  then have "(k \<in> fst ` set ?tables) = (Some k \<in> row_key cats ` set (rows df'))"
    by (simp only: groupby_keys)
  moreover have "fst ` set (map ?entry ?tables) = fst ` set ?tables"
    by (force simp: image_iff)
  ultimately have "(k \<in> dom (interpolations J)) = (Some k \<in> row_key cats ` set (rows (data J)))"
    unfolding J by (simp only: dom_map_of_conv_image_fst)
  then show "(interpolations J k = None) = (Some k \<notin> row_key cats ` set (rows (data J)))"
    by (cases "interpolations J k") (simp_all add: domIff)
  show "key_columns J = cats" by (rule J)
qed

text \<open>
  C9, as the code has it. Evaluation raises \<^verbatim>\<open>ValueError\<close> when the query
  lacks a parameter column of the interpolation or (there being key columns) a key
  column. When the columns are there and some row of the query has a key tuple (a value
  in every key column) for which the interpolation holds no functions, evaluation raises
  \<^verbatim>\<open>KeyError\<close>: no value is computed from another key's functions. And an
  interpolation constructed over key columns holds functions for exactly the key tuples
  that occur in its construction data. A row with a missing value in a key column has no
  key tuple: the grouping leaves it out, at construction and at evaluation, and a query
  in which no row has a key tuple is evaluated without an exception and without a value.
\<close>

theorem Interpolation_call_errors:
  "(\<not> set (parameter_columns I) \<subseteq> set (columns q)
      \<or> (key_columns I \<noteq> [] \<and> \<not> set (key_columns I) \<subseteq> set (columns q))
      \<longrightarrow> Interpolation_call I q = Inl ValueError)
   \<and> (set (parameter_columns I) \<subseteq> set (columns q) \<and> key_columns I \<noteq> []
        \<and> set (key_columns I) \<subseteq> set (columns q) \<and> r \<in> set (rows q)
        \<and> row_key (key_columns I) r = Some key \<and> interpolations I key = None
      \<longrightarrow> Interpolation_call I q = Inl KeyError)
   \<and> (Interpolation_init fit df cats conts order = Inr J \<and> cats \<noteq> []
      \<longrightarrow> key_columns J = cats
          \<and> (\<forall>k. (interpolations J k = None)
                  = (Some k \<notin> row_key cats ` set (rows (data J)))))
   \<and> (set (parameter_columns I) \<subseteq> set (columns q) \<and> key_columns I \<noteq> []
        \<and> set (key_columns I) \<subseteq> set (columns q)
        \<and> (\<forall>r' \<in> set (rows q). row_key (key_columns I) r' = None)
      \<longrightarrow> Interpolation_call I q
            = Inr \<lparr>columns = [], rows = replicate (length (rows q)) Map.empty\<rparr>)"
proof -
  have a: "Interpolation_call I q = Inl ValueError"
    if "\<not> set (parameter_columns I) \<subseteq> set (columns q)
      \<or> (key_columns I \<noteq> [] \<and> \<not> set (key_columns I) \<subseteq> set (columns q))"
    using that by (auto simp: Interpolation_call_def validate_call_data_def)
  have b: "Interpolation_call I q = Inl KeyError"
    if p: "set (parameter_columns I) \<subseteq> set (columns q)" and k: "key_columns I \<noteq> []"
      and c: "set (key_columns I) \<subseteq> set (columns q)" and r: "r \<in> set (rows q)"
      and key: "row_key (key_columns I) r = Some key"
      and none: "interpolations I key = None"
  proof -
    let ?res = "\<lparr>columns = [], rows = replicate (length (rows q)) Map.empty\<rparr>
      :: 'a DataFrame"
    have call: "Interpolation_call I q = call_loop I q (groupby (key_columns I) q) ?res"
      using p k c by (simp add: Interpolation_call_def validate_call_data_def sub_tables_def)
    from k c have cols: "columns q \<noteq> []"
      by (cases "key_columns I") auto
    from groupby_member [OF r key] obtain idx where
      "(key, idx) \<in> set (groupby (key_columns I) q)" "idx \<noteq> []"
      by (elim exE conjE)
    from call_loop_missing [OF this cols none, of ?res] obtain e where
      e: "call_loop I q (groupby (key_columns I) q) ?res = Inl e"
      by (elim exE)
    from call_loop_error [OF e] e call show ?thesis
      by simp
  qed
  have c: "key_columns J = cats
          \<and> (\<forall>k. (interpolations J k = None) = (Some k \<notin> row_key cats ` set (rows (data J))))"
    if "Interpolation_init fit df cats conts order = Inr J" "cats \<noteq> []"
    using Interpolation_init_partitions [OF that] by simp
  have "\<not> set (parameter_columns I) \<subseteq> set (columns q)
      \<or> (key_columns I \<noteq> [] \<and> \<not> set (key_columns I) \<subseteq> set (columns q))
      \<longrightarrow> Interpolation_call I q = Inl ValueError"
    by (intro impI) (rule a)
  moreover have "set (parameter_columns I) \<subseteq> set (columns q) \<and> key_columns I \<noteq> []
        \<and> set (key_columns I) \<subseteq> set (columns q) \<and> r \<in> set (rows q)
        \<and> row_key (key_columns I) r = Some key \<and> interpolations I key = None
      \<longrightarrow> Interpolation_call I q = Inl KeyError"
    by (intro impI, elim conjE) (rule b)
  moreover have "Interpolation_init fit df cats conts order = Inr J \<and> cats \<noteq> []
      \<longrightarrow> key_columns J = cats
          \<and> (\<forall>k. (interpolations J k = None) = (Some k \<notin> row_key cats ` set (rows (data J))))"
    by (intro impI, elim conjE) (rule c)
  moreover have "set (parameter_columns I) \<subseteq> set (columns q) \<and> key_columns I \<noteq> []
        \<and> set (key_columns I) \<subseteq> set (columns q)
        \<and> (\<forall>r' \<in> set (rows q). row_key (key_columns I) r' = None)
      \<longrightarrow> Interpolation_call I q
            = Inr \<lparr>columns = [], rows = replicate (length (rows q)) Map.empty\<rparr>"
  proof (intro impI, elim conjE)
    assume p: "set (parameter_columns I) \<subseteq> set (columns q)" and k: "key_columns I \<noteq> []"
      and c: "set (key_columns I) \<subseteq> set (columns q)"
      and none: "\<forall>r' \<in> set (rows q). row_key (key_columns I) r' = None"
    from none have "groupby (key_columns I) q = []"
      by (simp add: groupby_no_key)
    then show "Interpolation_call I q
        = Inr \<lparr>columns = [], rows = replicate (length (rows q)) Map.empty\<rparr>"
      using p k c by (simp add: Interpolation_call_def validate_call_data_def sub_tables_def)
  qed
  ultimately show ?thesis
    by (intro conjI)
qed

lemma validate_parameters_reference:
  "validate_parameters reference_table [''sex''] [''age''] 1
     = Inr ([''age''], reference_table, [''value''])"
  by (simp add: validate_parameters_def reference_table_def Let_def)

lemma groupby_reference:
  "groupby [''sex''] reference_table = [([1], [0, 1]), ([2], [2, 3])]"
  by (simp add: groupby_def reference_table_def row_key_def List.map_filter_def upt_rec)

lemma Interpolation_init_reference:
  "Interpolation_init first_sample reference_table [''sex''] [''age''] 1
     = Inr reference_interpolation"
  apply (simp add: Interpolation_init_def validate_parameters_reference sub_tables_def
      groupby_reference reference_interpolation_def)
  apply (simp add: reference_table_def fun_eq_iff)
  done

lemma Interpolation_call_known:
  "Interpolation_call reference_interpolation query_known
     = Inr \<lparr>columns = [''value''], rows = [[''value'' \<mapsto> 40]]\<rparr>"
  by (simp add: Interpolation_call_def validate_call_data_def reference_interpolation_def
      query_known_def sub_tables_def groupby_def row_key_def List.map_filter_def
      assign_values_def first_sample_def)

lemma Interpolation_call_unknown_key:
  "Interpolation_call reference_interpolation query_unknown_key = Inl KeyError"
  by (simp add: Interpolation_call_def validate_call_data_def reference_interpolation_def
      query_unknown_key_def sub_tables_def groupby_def row_key_def List.map_filter_def
      assign_values_def first_sample_def upt_rec)

lemma Interpolation_call_no_age:
  "Interpolation_call reference_interpolation query_no_age = Inl ValueError"
  by (simp add: Interpolation_call_def validate_call_data_def reference_interpolation_def
      query_no_age_def)

text \<open>
  A query row whose key cell is missing is in no sub-table: it raises nothing and gets no
  value, while the row after it gets the value of its key.
\<close>

lemma Interpolation_call_missing_sex:
  "Interpolation_call reference_interpolation query_missing_sex
     = Inr \<lparr>columns = [''value''], rows = [Map.empty, [''value'' \<mapsto> 40]]\<rparr>"
  by (simp add: Interpolation_call_def validate_call_data_def reference_interpolation_def
      query_missing_sex_def sub_tables_def groupby_def row_key_def List.map_filter_def
      assign_values_def first_sample_def upt_rec)

theorem Interpolation_call_errors_witness:
  "Interpolation_init first_sample reference_table [''sex''] [''age''] 1
     = Inr reference_interpolation
   \<and> key_columns reference_interpolation = [''sex'']
   \<and> interpolations reference_interpolation [3] = None
   \<and> interpolations reference_interpolation [2] \<noteq> None
   \<and> [''sex'' \<mapsto> 3, ''age'' \<mapsto> 25] \<in> set (rows query_unknown_key)
   \<and> row_key (key_columns reference_interpolation) [''sex'' \<mapsto> 3, ''age'' \<mapsto> 25] = Some [3 :: real]
   \<and> Interpolation_call reference_interpolation query_unknown_key = Inl KeyError
   \<and> \<not> set (parameter_columns reference_interpolation) \<subseteq> set (columns query_no_age)
   \<and> Interpolation_call reference_interpolation query_no_age = Inl ValueError
   \<and> rows query_only_missing_sex = [[''age'' \<mapsto> 25]]
   \<and> row_key (key_columns reference_interpolation) [''age'' \<mapsto> 25 :: real] = None
   \<and> Interpolation_call reference_interpolation query_only_missing_sex
       = Inr \<lparr>columns = [], rows = [Map.empty]\<rparr>"
proof -
  have cols: "\<not> set (parameter_columns reference_interpolation) \<subseteq> set (columns query_no_age)"
    by (simp add: reference_interpolation_def query_no_age_def)
  have rows': "rows query_only_missing_sex = [[''age'' \<mapsto> 25]]"
    by (simp add: query_only_missing_sex_def)
  have nokey: "row_key (key_columns reference_interpolation) [''age'' \<mapsto> 25 :: real] = None"
    by (simp add: reference_interpolation_def row_key_def)
  have pre': "set (parameter_columns reference_interpolation)
      \<subseteq> set (columns query_only_missing_sex)"
    "set (key_columns reference_interpolation) \<subseteq> set (columns query_only_missing_sex)"
    by (simp_all add: reference_interpolation_def query_only_missing_sex_def)
  have row: "[''sex'' \<mapsto> 3, ''age'' \<mapsto> 25] \<in> set (rows query_unknown_key)"
    by (simp add: query_unknown_key_def)
  have key: "row_key (key_columns reference_interpolation)
      [''sex'' \<mapsto> 3, ''age'' \<mapsto> 25] = Some [3 :: real]"
    by (simp add: reference_interpolation_def row_key_def)
  have pre: "set (parameter_columns reference_interpolation) \<subseteq> set (columns query_unknown_key)"
    "key_columns reference_interpolation \<noteq> []"
    "set (key_columns reference_interpolation) \<subseteq> set (columns query_unknown_key)"
    by (simp_all add: reference_interpolation_def query_unknown_key_def)
  have occurs: "Some [3] \<notin> row_key [''sex''] ` set (rows (data reference_interpolation))"
    "Some [2] \<in> row_key [''sex''] ` set (rows (data reference_interpolation))"
    by (simp_all add: reference_interpolation_def reference_table_def row_key_def)
  note c = Interpolation_call_errors [THEN conjunct2, THEN conjunct2, THEN conjunct1, THEN mp,
      OF conjI [OF Interpolation_init_reference]]
  have parts: "key_columns reference_interpolation = [''sex'']"
    "interpolations reference_interpolation [3] = None"
    "interpolations reference_interpolation [2] \<noteq> None"
    using c occurs by simp_all
  note b = Interpolation_call_errors [where I = reference_interpolation
        and q = query_unknown_key and r = "[''sex'' \<mapsto> 3, ''age'' \<mapsto> 25]" and key = "[3]",
      THEN conjunct2, THEN conjunct1, THEN mp]
  have unknown: "Interpolation_call reference_interpolation query_unknown_key = Inl KeyError"
    using b pre row parts(2) key by simp
  note a = Interpolation_call_errors [where I = reference_interpolation and q = query_no_age,
      THEN conjunct1, THEN mp]
  have missing: "Interpolation_call reference_interpolation query_no_age = Inl ValueError"
    using a cols by simp
  note d = Interpolation_call_errors [where I = reference_interpolation
        and q = query_only_missing_sex,
      THEN conjunct2, THEN conjunct2, THEN conjunct2, THEN mp]
  have dropped: "Interpolation_call reference_interpolation query_only_missing_sex
       = Inr \<lparr>columns = [], rows = [Map.empty]\<rparr>"
    using d pre' pre(2) nokey by (simp add: rows')
  from Interpolation_init_reference parts row key unknown cols missing rows' nokey dropped
  show ?thesis
    by (intro conjI)
qed

text \<open>
  C9 as stated fails on the exceptions: for the interpolation built from the reference
  table, a query without the \<^verbatim>\<open>age\<close> column raises \<^verbatim>\<open>ValueError\<close>, not
  \<^verbatim>\<open>MissingParameterError\<close>, and a query with the key 3, which the table does
  not hold, raises \<^verbatim>\<open>KeyError\<close>, not \<^verbatim>\<open>MissingKeyError\<close>.
\<close>

theorem Interpolation_call_errors_counterexample:
  "Interpolation_init first_sample reference_table [''sex''] [''age''] 1
     = Inr reference_interpolation
   \<and> Interpolation_call reference_interpolation query_no_age = Inl ValueError
   \<and> Interpolation_call reference_interpolation query_no_age \<noteq> Inl MissingParameterError
   \<and> Interpolation_call reference_interpolation query_unknown_key = Inl KeyError
   \<and> Interpolation_call reference_interpolation query_unknown_key \<noteq> Inl MissingKeyError"
  by (simp add: Interpolation_init_reference Interpolation_call_no_age
      Interpolation_call_unknown_key)

end
